theory Spec2Isabelle
  imports Complex_Main "HOL-Library.AList"
begin

section \<open>Numbers of the JavaScript runtime\<close>

text \<open>
  The server is \<^verbatim>\<open>src/server/index.js\<close>, a Node.js program. Its numbers are IEEE binary64
  values. A number is modelled by its mathematical value, or by one of the three special
  values. The sign of zero is not modelled. The arithmetic the server performs is
  comparison, \<^verbatim>\<open>Math.min\<close>, \<^verbatim>\<open>Math.max\<close> and subtraction or addition of file offsets;
  the last two round their exact result to the nearest binary64 number.
\<close>

datatype jsnum = NaN | NegInf | Fin real | PosInf

fun js_lt :: "jsnum \<Rightarrow> jsnum \<Rightarrow> bool" where
  "js_lt NaN _ = False"
| "js_lt _ NaN = False"
| "js_lt NegInf NegInf = False"
| "js_lt NegInf _ = True"
| "js_lt (Fin a) (Fin b) = (a < b)"
| "js_lt (Fin _) PosInf = True"
| "js_lt (Fin _) NegInf = False"
| "js_lt PosInf _ = False"

fun js_le :: "jsnum \<Rightarrow> jsnum \<Rightarrow> bool" where
  "js_le NaN _ = False"
| "js_le _ NaN = False"
| "js_le a b = (a = b \<or> js_lt a b)"

definition js_ge :: "jsnum \<Rightarrow> jsnum \<Rightarrow> bool" where
  "js_ge a b = js_le b a"

fun Math_max :: "jsnum \<Rightarrow> jsnum \<Rightarrow> jsnum" where
  "Math_max NaN _ = NaN"
| "Math_max _ NaN = NaN"
| "Math_max a b = (if js_lt a b then b else a)"

fun Math_min :: "jsnum \<Rightarrow> jsnum \<Rightarrow> jsnum" where
  "Math_min NaN _ = NaN"
| "Math_min _ NaN = NaN"
| "Math_min a b = (if js_lt b a then b else a)"

subsection \<open>Rounding to binary64\<close>

text \<open>
  \<open>bit_length n\<close> is the number of binary digits of \<open>n\<close>. A positive real \<open>a\<close> lies
  between \<open>2 ^ e\<close> and \<open>2 ^ (e + 1)\<close> for its exponent \<open>e\<close>, which binary64 keeps at
  -1022 or above; the representable numbers around \<open>a\<close> are the multiples of
  \<open>2 ^ (e - 52)\<close>, and \<open>a\<close> is rounded to the nearest of them, to the even multiple when
  two are equally near. A result of \<open>2 ^ 1024\<close> or more is infinite. Every integer of
  magnitude up to \<open>2 ^ 53\<close> is representable, which the first case of \<open>to_binary64\<close>
  states outright.
\<close>

fun bit_length :: "nat \<Rightarrow> nat" where
  "bit_length n = (if n = 0 then 0 else Suc (bit_length (n div 2)))"

declare bit_length.simps [simp del]

definition round_half_even :: "real \<Rightarrow> int" where
  "round_half_even x =
     (let f = \<lfloor>x\<rfloor>; d = x - of_int f in
      if d < 1 / 2 then f
      else if 1 / 2 < d then f + 1
      else if even f then f else f + 1)"

definition binary64_exponent :: "real \<Rightarrow> int" where
  "binary64_exponent a =
     max (- 1022)
       (if 1 \<le> a then int (bit_length (nat \<lfloor>a\<rfloor>)) - 1
        else (let k = int (bit_length (nat \<lfloor>1 / a\<rfloor>)) in
              if 1 / a = 2 ^ nat (k - 1) then 1 - k else - k))"

definition to_binary64 :: "real \<Rightarrow> jsnum" where
  "to_binary64 r =
     (if r = of_int \<lfloor>r\<rfloor> \<and> \<bar>r\<bar> \<le> 2 ^ 53 then Fin r
      else
        (let a = \<bar>r\<bar>;
             ulp = power_int 2 (binary64_exponent a - 52);
             v = of_int (round_half_even (a / ulp)) * ulp
         in if 2 ^ 1024 \<le> v then (if 0 < r then PosInf else NegInf)
            else Fin (if 0 < r then v else - v)))"

fun js_add :: "jsnum \<Rightarrow> jsnum \<Rightarrow> jsnum" where
  "js_add NaN _ = NaN"
| "js_add _ NaN = NaN"
| "js_add (Fin a) (Fin b) = to_binary64 (a + b)"
| "js_add PosInf NegInf = NaN"
| "js_add NegInf PosInf = NaN"
| "js_add PosInf _ = PosInf"
| "js_add _ PosInf = PosInf"
| "js_add NegInf _ = NegInf"
| "js_add _ NegInf = NegInf"

fun js_neg :: "jsnum \<Rightarrow> jsnum" where
  "js_neg NaN = NaN"
| "js_neg NegInf = PosInf"
| "js_neg (Fin a) = Fin (- a)"
| "js_neg PosInf = NegInf"

definition js_sub :: "jsnum \<Rightarrow> jsnum \<Rightarrow> jsnum" where
  "js_sub a b = js_add a (js_neg b)"

fun Number_isFinite :: "jsnum \<Rightarrow> bool" where
  "Number_isFinite (Fin _) = True"
| "Number_isFinite _ = False"

text \<open>
  \<^verbatim>\<open>stats.size\<close> as a number. A size that Node.js reports is an integer that binary64
  represents.
\<close>

definition of_size :: "nat \<Rightarrow> jsnum" where
  "of_size n = Fin (real n)"

subsection \<open>\<^verbatim>\<open>Number\<close> on a string of decimal digits\<close>

text \<open>
  The Range parser applies \<^verbatim>\<open>Number\<close> only to captures of \<^verbatim>\<open>\d*\<close>. On such a string
  \<^verbatim>\<open>Number\<close> is the decimal value rounded to the nearest binary64 (ties to even), the empty
  string is 0, and a value too large for binary64 is \<^verbatim>\<open>Infinity\<close>.
\<close>

definition is_digit :: "char \<Rightarrow> bool" where
  "is_digit c = (48 \<le> (of_char c :: nat) \<and> (of_char c :: nat) \<le> 57)"

definition digit_value :: "char \<Rightarrow> nat" where
  "digit_value c = of_char c - 48"

definition decimal_value :: "string \<Rightarrow> nat" where
  "decimal_value s = foldl (\<lambda>acc c. 10 * acc + digit_value c) 0 s"

definition nearest_binary64 :: "nat \<Rightarrow> nat" where
  "nearest_binary64 n =
     (if n < 2 ^ 53 then n
      else let e = bit_length n - 53;
               q = n div 2 ^ e;
               r = n mod 2 ^ e;
               half = 2 ^ (e - 1);
               q' = (if half < r \<or> (r = half \<and> odd q) then q + 1 else q)
           in q' * 2 ^ e)"

definition round_binary64 :: "nat \<Rightarrow> jsnum" where
  "round_binary64 n =
     (let m = nearest_binary64 n in if 2 ^ 1024 \<le> m then PosInf else Fin (real m))"

definition digits_to_number :: "string \<Rightarrow> jsnum" where
  "digits_to_number s = round_binary64 (decimal_value s)"


section \<open>Strings\<close>

text \<open>
  A JavaScript string is modelled as a list of 8-bit characters, read as the code units
  below 256. \<^verbatim>\<open>String.prototype.trim\<close> removes white space and line terminators at both
  ends; below 256 these are the code units 9 to 13, 32 and 160.
\<close>

fun startsWith :: "string \<Rightarrow> string \<Rightarrow> bool" where
  "startsWith s [] = True"
| "startsWith [] (p # ps) = False"
| "startsWith (c # s) (p # ps) = (c = p \<and> startsWith s ps)"

fun includes_str :: "string \<Rightarrow> string \<Rightarrow> bool" where
  "includes_str [] p = (p = [])"
| "includes_str (c # s) p = (startsWith (c # s) p \<or> includes_str s p)"

definition is_white_space :: "char \<Rightarrow> bool" where
  "is_white_space c = ((of_char c :: nat) \<in> {9, 10, 11, 12, 13, 32, 160})"

definition trim :: "string \<Rightarrow> string" where
  "trim s = rev (dropWhile is_white_space (rev (dropWhile is_white_space s)))"

definition digit_char :: "nat \<Rightarrow> char" where
  "digit_char d = ''0123456789'' ! d"

fun show_nat :: "nat \<Rightarrow> string" where
  "show_nat n = (if n < 10 then [digit_char n] else show_nat (n div 10) @ [digit_char (n mod 10)])"

declare show_nat.simps [simp del]

text \<open>
  A template literal renders a number with \<^verbatim>\<open>Number.prototype.toString\<close>. The streaming
  endpoint interpolates only non-negative integers (file offsets and sizes), which render
  in plain decimal.
\<close>

fun show_offset :: "jsnum \<Rightarrow> string" where
  "show_offset (Fin r) = show_nat (nat \<lfloor>r\<rfloor>)"
| "show_offset NaN = ''NaN''"
| "show_offset PosInf = ''Infinity''"
| "show_offset NegInf = ''-Infinity''"

section \<open>Range resolution (\<^verbatim>\<open>src/server/index.js\<close>, lines 263 to 314)\<close>

text \<open>
  \<^verbatim>\<open>/^bytes=(\d*)-(\d*)$/.exec(rangeHeader)\<close>: the two captures, when the header has the
  shape. A digit is never \<^verbatim>\<open>-\<close>, so the first capture is the longest run of digits after
  \<^verbatim>\<open>bytes=\<close>.
\<close>

definition match_bytes_range :: "string \<Rightarrow> (string \<times> string) option" where
  "match_bytes_range h =
     (if startsWith h ''bytes='' then
        (let r = drop 6 h; startString = takeWhile is_digit r in
         case dropWhile is_digit r of
           [] \<Rightarrow> None
         | c # endString \<Rightarrow>
             if c = CHR ''-'' \<and> list_all is_digit endString
             then Some (startString, endString) else None)
      else None)"

text \<open>
  The body of the handler after the match: \<open>Inl\<close> carries the text of the 416 response,
  \<open>Inr\<close> the inclusive byte interval that is streamed.
\<close>

definition not_satisfiable_check :: "nat \<Rightarrow> jsnum \<Rightarrow> jsnum \<Rightarrow> string + jsnum \<times> jsnum" where
  "not_satisfiable_check sz start end' =
     (if js_ge start (of_size sz) then Inl ''Range Not Satisfiable'' else Inr (start, end'))"

definition resolve_range :: "string \<Rightarrow> nat \<Rightarrow> string + jsnum \<times> jsnum" where
  "resolve_range rangeHeader sz =
     (case match_bytes_range rangeHeader of
        None \<Rightarrow> Inl ''Malformed Range header''
      | Some (startString, endString) \<Rightarrow>
          if startString = [] \<and> endString \<noteq> [] then
            (let suffixLength = digits_to_number endString in
             if \<not> Number_isFinite suffixLength \<or> js_le suffixLength (Fin 0)
             then Inl ''Invalid Range''
             else not_satisfiable_check sz
                    (Math_max (Fin 0) (js_sub (of_size sz) suffixLength))
                    (js_sub (of_size sz) (Fin 1)))
          else
            (let start = digits_to_number startString in
             if \<not> Number_isFinite start \<or> js_lt start (Fin 0)
             then Inl ''Invalid Range''
             else
               (let end' = (if endString \<noteq> [] then digits_to_number endString
                            else js_sub (of_size sz) (Fin 1)) in
                if \<not> Number_isFinite end' \<or> js_lt end' start
                then Inl ''Invalid Range''
                else not_satisfiable_check sz start
                       (Math_min end' (js_sub (of_size sz) (Fin 1))))))"


section \<open>Paths (\<^verbatim>\<open>path.normalize\<close> and \<^verbatim>\<open>path.resolve\<close> of Node.js, POSIX flavour)\<close>

text \<open>
  The server runs on a POSIX system: \<^verbatim>\<open>path.sep\<close> is \<^verbatim>\<open>/\<close> and a backslash is an ordinary
  character of a file name. Both library functions work on the segments between
  separators: an empty segment and \<^verbatim>\<open>.\<close> are dropped, \<^verbatim>\<open>..\<close> removes the segment before
  it, and where there is none it is kept for a relative path and dropped for an absolute
  one.
\<close>

fun split_on :: "char \<Rightarrow> string \<Rightarrow> string list" where
  "split_on sep [] = [[]]"
| "split_on sep (c # cs) =
     (if c = sep then [] # split_on sep cs
      else (case split_on sep cs of
              [] \<Rightarrow> [[c]]
            | seg # segs \<Rightarrow> (c # seg) # segs))"

fun join_with :: "char \<Rightarrow> string list \<Rightarrow> string" where
  "join_with sep [] = []"
| "join_with sep [seg] = seg"
| "join_with sep (seg # seg' # segs) = seg @ sep # join_with sep (seg' # segs)"

definition normalize_step :: "bool \<Rightarrow> string list \<Rightarrow> string \<Rightarrow> string list" where
  "normalize_step allowAboveRoot res seg =
     (if seg = [] \<or> seg = ''.'' then res
      else if seg = ''..'' then
        (if res \<noteq> [] \<and> last res \<noteq> ''..'' then butlast res
         else if allowAboveRoot then res @ [''..''] else res)
      else res @ [seg])"

definition normalizeString :: "string \<Rightarrow> bool \<Rightarrow> string" where
  "normalizeString path allowAboveRoot =
     join_with (CHR ''/'') (foldl (normalize_step allowAboveRoot) [] (split_on (CHR ''/'') path))"

definition path_normalize :: "string \<Rightarrow> string" where
  "path_normalize path =
     (if path = [] then ''.''
      else
        (let isAbsolute = (hd path = CHR ''/'');
             trailingSeparator = (last path = CHR ''/'');
             p = normalizeString path (\<not> isAbsolute) in
         if p = [] then (if isAbsolute then ''/'' else if trailingSeparator then ''./'' else ''.'')
         else (let p' = (if trailingSeparator then p @ ''/'' else p) in
               if isAbsolute then CHR ''/'' # p' else p')))"

text \<open>
  \<^verbatim>\<open>path.resolve\<close> reads its arguments from the right until one is absolute, and the
  working directory after them. The list given to \<open>resolve_args\<close> is in that order.
\<close>

fun resolve_args :: "string list \<Rightarrow> string \<Rightarrow> string \<times> bool" where
  "resolve_args [] resolvedPath = (resolvedPath, False)"
| "resolve_args (p # ps) resolvedPath =
     (if p = [] then resolve_args ps resolvedPath
      else if hd p = CHR ''/'' then (p @ ''/'' @ resolvedPath, True)
      else resolve_args ps (p @ ''/'' @ resolvedPath))"

definition path_resolve :: "string \<Rightarrow> string list \<Rightarrow> string" where
  "path_resolve cwd args =
     (case resolve_args (rev args @ [cwd]) [] of
        (resolvedPath, resolvedAbsolute) \<Rightarrow>
          (let n = normalizeString resolvedPath (\<not> resolvedAbsolute) in
           if resolvedAbsolute then CHR ''/'' # n
           else if n \<noteq> [] then n else ''.''))"

text \<open>
  Two notions used to state properties of paths: a segment that \<^verbatim>\<open>normalizeString\<close> keeps
  when no \<^verbatim>\<open>..\<close> is around, and a segment of a normalised absolute path.
\<close>

definition kept_segment :: "string \<Rightarrow> bool" where
  "kept_segment seg = (seg \<noteq> [] \<and> seg \<noteq> ''.'')"

definition clean_segment :: "string \<Rightarrow> bool" where
  "clean_segment seg = (seg \<noteq> [] \<and> seg \<noteq> ''.'' \<and> seg \<noteq> ''..'' \<and> CHR ''/'' \<notin> set seg)"

section \<open>The media streaming endpoint (lines 204 to 334)\<close>

text \<open>
  The environment of the process: its working directory and \<^verbatim>\<open>__dirname\<close>, the directory
  of \<^verbatim>\<open>index.js\<close>. The file system is the function \<open>stat\<close>: \<open>None\<close> when
  \<^verbatim>\<open>fs.promises.stat\<close> rejects.
\<close>

record node_env =
  cwd :: string
  dirname :: string

definition mp4Dir :: "node_env \<Rightarrow> string" where
  "mp4Dir env = path_resolve (cwd env) [dirname env, ''../mp4'']"

record stats =
  isFile :: bool
  size_bytes :: nat

datatype fs_access = Stat string | CreateReadStream string "(jsnum \<times> jsnum) option"

text \<open>
  A response records the status and the headers the handler set and, as its body, what it
  sent: a text, the text of the status, or a file stream piped into the response.
  \<open>Nothing_sent\<close> stands for a handler that threw after setting status and headers and
  before writing anything: the handler sends no response, and what Express makes of the
  exception is not modelled.
\<close>

datatype body =
  Text string | Status_text | Piped_file string "(jsnum \<times> jsnum) option" | Nothing_sent

record response =
  status :: nat
  headers :: "(string \<times> string) list"
  body :: body

definition sendStatus :: "nat \<Rightarrow> response" where
  "sendStatus code = \<lparr>status = code, headers = [], body = Status_text\<rparr>"

definition invalid_video_path :: response where
  "invalid_video_path = \<lparr>status = 400, headers = [], body = Text ''Invalid video path''\<rparr>"

definition range_rejected :: "nat \<Rightarrow> string \<Rightarrow> response" where
  "range_rejected sz text =
     \<lparr>status = 416, headers = [(''Content-Range'', ''bytes */'' @ show_nat sz)], body = Text text\<rparr>"

definition is_leading_separator :: "char \<Rightarrow> bool" where
  "is_leading_separator c = (c = CHR ''/'' \<or> c = CHR 0x5C)"

text \<open>
  Lines 205 to 223: the path that will be inspected, or the response that ends the request
  before the file system is touched. \<open>param0\<close> is \<^verbatim>\<open>req.params[0]\<close>, the decoded capture
  of the route.
\<close>

definition resolve_video_path :: "node_env \<Rightarrow> string \<Rightarrow> response + string" where
  "resolve_video_path env param0 =
     (let requestedPath = trim param0 in
      if requestedPath = [] then Inl (sendStatus 404)
      else
        (let normalizedPath = dropWhile is_leading_separator (path_normalize requestedPath) in
         if includes_str normalizedPath ''..'' then Inl invalid_video_path
         else
           (let absolutePath = path_resolve (cwd env) [mp4Dir env, normalizedPath];
                isInsideMp4Dir =
                  (absolutePath = mp4Dir env \<or> startsWith absolutePath (mp4Dir env @ ''/'')) in
            if \<not> isInsideMp4Dir then Inl invalid_video_path
            else Inr absolutePath)))"

text \<open>
  Lines 241 to 334: the answer for a regular file, with the read streams it opens.
  \<open>rangeHeader\<close> is \<^verbatim>\<open>req.headers.range\<close>; the test \<^verbatim>\<open>!rangeHeader\<close> holds for a missing
  header and for an empty one. An I/O error while a stream is piped is not modelled.
\<close>

definition whole_file :: "string \<Rightarrow> stats \<Rightarrow> fs_access list \<times> response" where
  "whole_file absolutePath st =
     ([CreateReadStream absolutePath None],
      \<lparr>status = 200,
       headers = [(''Content-Length'', show_nat (size_bytes st)),
                  (''Content-Type'', ''video/mp4''),
                  (''Accept-Ranges'', ''bytes'')],
       body = Piped_file absolutePath None\<rparr>)"

text \<open>
  \<^verbatim>\<open>fs.createReadStream\<close> validates its options before it opens the file: \<^verbatim>\<open>start\<close> must
  be an integer from 0 to \<^verbatim>\<open>Number.MAX_SAFE_INTEGER\<close>, which is \<open>2 ^ 53 - 1\<close>; \<^verbatim>\<open>end\<close>,
  unless it is \<^verbatim>\<open>Infinity\<close>, must be one too and not below \<^verbatim>\<open>start\<close>. Otherwise it throws
  a \<^verbatim>\<open>RangeError\<close>, which nothing in the handler catches.
\<close>

fun is_safe_offset :: "jsnum \<Rightarrow> bool" where
  "is_safe_offset (Fin r) = (r = of_int \<lfloor>r\<rfloor> \<and> 0 \<le> r \<and> r \<le> 2 ^ 53 - 1)"
| "is_safe_offset _ = False"

definition createReadStream_accepts :: "jsnum \<Rightarrow> jsnum \<Rightarrow> bool" where
  "createReadStream_accepts start end' =
     (is_safe_offset start \<and>
      (end' = PosInf \<or> (is_safe_offset end' \<and> \<not> js_lt end' start)))"

definition serve_file :: "string \<Rightarrow> stats \<Rightarrow> string option \<Rightarrow> fs_access list \<times> response" where
  "serve_file absolutePath st rangeHeader =
     (case rangeHeader of
        None \<Rightarrow> whole_file absolutePath st
      | Some h \<Rightarrow>
          if h = [] then whole_file absolutePath st
          else
            (case resolve_range h (size_bytes st) of
               Inl text \<Rightarrow> ([], range_rejected (size_bytes st) text)
             | Inr (start, end') \<Rightarrow>
                 (let chunkSize = js_add (js_sub end' start) (Fin 1);
                      partial_content =
                        [(''Content-Range'',
                            ''bytes '' @ show_offset start @ ''-'' @ show_offset end'
                              @ ''/'' @ show_nat (size_bytes st)),
                         (''Accept-Ranges'', ''bytes''),
                         (''Content-Length'', show_offset chunkSize),
                         (''Content-Type'', ''video/mp4'')]
                  in if createReadStream_accepts start end'
                     then ([CreateReadStream absolutePath (Some (start, end'))],
                           \<lparr>status = 206, headers = partial_content,
                            body = Piped_file absolutePath (Some (start, end'))\<rparr>)
                     else ([], \<lparr>status = 206, headers = partial_content,
                                body = Nothing_sent\<rparr>))))"

text \<open>
  The whole handler: the file system accesses it makes, in order, and the response.
\<close>

definition stream_mp4 ::
  "node_env \<Rightarrow> (string \<Rightarrow> stats option) \<Rightarrow> string \<Rightarrow> string option \<Rightarrow> fs_access list \<times> response" where
  "stream_mp4 env stat param0 rangeHeader =
     (case resolve_video_path env param0 of
        Inl r \<Rightarrow> ([], r)
      | Inr absolutePath \<Rightarrow>
          (case stat absolutePath of
             None \<Rightarrow> ([Stat absolutePath], sendStatus 404)
           | Some st \<Rightarrow>
               if \<not> isFile st then ([Stat absolutePath], sendStatus 404)
               else (case serve_file absolutePath st rangeHeader of
                       (reads, r) \<Rightarrow> (Stat absolutePath # reads, r))))"

fun accessed_path :: "fs_access \<Rightarrow> string" where
  "accessed_path (Stat p) = p"
| "accessed_path (CreateReadStream p _) = p"

text \<open>A deployment used in the examples: one video of 1000 bytes and one empty file.\<close>

definition example_env :: node_env where
  "example_env = \<lparr>cwd = ''/srv/app'', dirname = ''/srv/app/server''\<rparr>"

definition example_stat :: "string \<Rightarrow> stats option" where
  "example_stat p =
     (if p = ''/srv/app/mp4/music/clip.mp4'' then Some \<lparr>isFile = True, size_bytes = 1000\<rparr>
      else if p = ''/srv/app/mp4/music/empty.mp4'' then Some \<lparr>isFile = True, size_bytes = 0\<rparr>
      else if p = ''/srv/app/mp4'' \<or> p = ''/srv/app/mp4/music'' then Some \<lparr>isFile = False, size_bytes = 4096\<rparr>
      else None)"

section \<open>Values of parsed JSON\<close>

text \<open>
  The realtime channel receives text frames and parses them with \<^verbatim>\<open>JSON.parse\<close>. A parsed
  message is a value of the following type; \<open>JUndefined\<close> is what reading a missing
  property gives. An object is the list of its own properties, read through \<open>map_of\<close>.
  The order of the properties is observable only in serialised text and is not
  meant to be exact.
\<close>

datatype jsval =
    JUndefined | JNull | JBool bool | JNum jsnum | JStr string
  | JArr "jsval list" | JObj "(string \<times> jsval) list"

type_synonym jsobj = "(string \<times> jsval) list"

definition obj_get :: "jsobj \<Rightarrow> string \<Rightarrow> jsval" where
  "obj_get kvs k = (case map_of kvs k of Some v \<Rightarrow> v | None \<Rightarrow> JUndefined)"

text \<open>
  \<open>get v k\<close> is \<^verbatim>\<open>v.k\<close> for a value that is neither \<^verbatim>\<open>null\<close> nor \<^verbatim>\<open>undefined\<close> and
  a name that no prototype defines. The names the server reads are \<^verbatim>\<open>type\<close>, \<^verbatim>\<open>role\<close>,
  \<^verbatim>\<open>payload\<close>, \<^verbatim>\<open>deck\<close>, \<^verbatim>\<open>data\<close>, \<^verbatim>\<open>state\<close>, \<^verbatim>\<open>target\<close>, \<^verbatim>\<open>value\<close>, \<^verbatim>\<open>rtc\<close> and the
  fields of a deck and of a media state; a string, an array, a number or a boolean has
  none of them.
\<close>

fun get :: "jsval \<Rightarrow> string \<Rightarrow> jsval" where
  "get (JObj kvs) k = obj_get kvs k"
| "get _ k = JUndefined"

definition is_nullish :: "jsval \<Rightarrow> bool" where
  "is_nullish v = (v = JNull \<or> v = JUndefined)"

text \<open>\<^verbatim>\<open>v?.k\<close>, \<^verbatim>\<open>v ?? d\<close>, truthiness and \<^verbatim>\<open>v || d\<close>.\<close>

definition opt_get :: "jsval \<Rightarrow> string \<Rightarrow> jsval" where
  "opt_get v k = (if is_nullish v then JUndefined else get v k)"

definition nullish_or :: "jsval \<Rightarrow> jsval \<Rightarrow> jsval" where
  "nullish_or v d = (if is_nullish v then d else v)"

fun truthy :: "jsval \<Rightarrow> bool" where
  "truthy JUndefined = False"
| "truthy JNull = False"
| "truthy (JBool b) = b"
| "truthy (JNum n) = (n \<noteq> NaN \<and> n \<noteq> Fin 0)"
| "truthy (JStr s) = (s \<noteq> [])"
| "truthy (JArr _) = True"
| "truthy (JObj _) = True"

definition or_else :: "jsval \<Rightarrow> jsval \<Rightarrow> jsval" where
  "or_else v d = (if truthy v then v else d)"

subsection \<open>Conversions\<close>

text \<open>
  The conversion between decimal text and binary64 numbers belongs to the runtime and
  is a parameter of the model: \<open>StringToNumber\<close> is the abstract operation of that name
  and \<open>NumberToString\<close> is \<^verbatim>\<open>Number.prototype.toString\<close>. Every theorem below holds for
  every runtime.
\<close>

record js_runtime =
  StringToNumber :: "string \<Rightarrow> jsnum"
  NumberToString :: "jsnum \<Rightarrow> string"

text \<open>
  Converting an object to a primitive calls its \<^verbatim>\<open>toString\<close>. A parsed object inherits
  the one of \<^verbatim>\<open>Object.prototype\<close>, which gives \<^verbatim>\<open>[object Object]\<close>, unless it has an own
  property of that name: a parsed value is never a function, and the conversion throws a
  \<^verbatim>\<open>TypeError\<close>. An array is converted by \<^verbatim>\<open>join\<close>, which renders \<^verbatim>\<open>null\<close> and
  \<^verbatim>\<open>undefined\<close> as the empty string and converts every other element.
\<close>

datatype failure = TypeError | Prototype_key

fun convertible :: "jsval \<Rightarrow> bool" where
  "convertible (JObj kvs) = (''toString'' \<notin> fst ` set kvs)"
| "convertible (JArr xs) = list_all convertible xs"
| "convertible _ = True"

fun to_string :: "js_runtime \<Rightarrow> jsval \<Rightarrow> string" where
  "to_string rt JUndefined = ''undefined''"
| "to_string rt JNull = ''null''"
| "to_string rt (JBool b) = (if b then ''true'' else ''false'')"
| "to_string rt (JNum n) = NumberToString rt n"
| "to_string rt (JStr s) = s"
| "to_string rt (JArr xs) =
     join_with (CHR '','') (map (\<lambda>x. if is_nullish x then [] else to_string rt x) xs)"
| "to_string rt (JObj kvs) = ''[object Object]''"

definition ToPropertyKey :: "js_runtime \<Rightarrow> jsval \<Rightarrow> failure + string" where
  "ToPropertyKey rt v = (if convertible v then Inr (to_string rt v) else Inl TypeError)"

fun ToNumber :: "js_runtime \<Rightarrow> jsval \<Rightarrow> failure + jsnum" where
  "ToNumber rt JUndefined = Inr NaN"
| "ToNumber rt JNull = Inr (Fin 0)"
| "ToNumber rt (JBool b) = Inr (Fin (if b then 1 else 0))"
| "ToNumber rt (JNum n) = Inr n"
| "ToNumber rt (JStr s) = Inr (StringToNumber rt s)"
| "ToNumber rt v =
     (if convertible v then Inr (StringToNumber rt (to_string rt v)) else Inl TypeError)"

text \<open>
  The own enumerable properties that \<^verbatim>\<open>{...v}\<close> copies: those of an object, the indexed
  elements of an array, the indexed characters of a string, and none for any other value.
  \<^verbatim>\<open>{...a, ...b}\<close> is \<open>AList.merge a b\<close>.
\<close>

fun own_properties :: "jsval \<Rightarrow> jsobj" where
  "own_properties (JObj kvs) = kvs"
| "own_properties (JArr xs) = zip (map show_nat [0..<length xs]) xs"
| "own_properties (JStr s) = zip (map show_nat [0..<length s]) (map (\<lambda>c. JStr [c]) s)"
| "own_properties _ = []"

definition toLowerCase_char :: "char \<Rightarrow> char" where
  "toLowerCase_char c =
     (let n = (of_char c :: nat) in
      if (65 \<le> n \<and> n \<le> 90) \<or> (192 \<le> n \<and> n \<le> 214) \<or> (216 \<le> n \<and> n \<le> 222)
      then (case c of Char b0 b1 b2 b3 b4 b5 b6 b7 \<Rightarrow> Char b0 b1 b2 b3 b4 True b6 b7)
      else c)"

definition toLowerCase :: "string \<Rightarrow> string" where
  "toLowerCase s = map toLowerCase_char s"

section \<open>Session state and connections (lines 83 to 149)\<close>

datatype deck_key = Deck_a | Deck_b | Deck_c | Deck_d

record mix_state =
  crossfaderAB :: jsnum
  crossfaderAC :: jsnum
  crossfaderBD :: jsnum
  crossfaderCD :: jsnum
  decks :: "deck_key \<Rightarrow> jsobj"

record deck_media_state =
  isPlaying :: bool
  progress :: jsnum
  isLoading :: bool
  error :: bool
  src :: jsval

record session_state =
  fallbackLayers :: jsval
  controlSettings :: jsobj
  viewerStatus :: jsobj
  mixState :: mix_state
  deckMediaStates :: "deck_key \<Rightarrow> deck_media_state"

definition defaultMixDeck :: jsobj where
  "defaultMixDeck =
     [(''type'', JNull), (''assetId'', JNull), (''opacity'', JNum (Fin 1)), (''enabled'', JBool False)]"

definition defaultDeckMediaState :: deck_media_state where
  "defaultDeckMediaState =
     \<lparr>isPlaying = False, progress = Fin 0, isLoading = False, error = False, src = JNull\<rparr>"

definition initial_state :: session_state where
  "initial_state =
     \<lparr>fallbackLayers = JArr [],
      controlSettings = [(''modelProvider'', JStr ''gemini''), (''audioInputMode'', JStr ''file''),
                         (''prompt'', JStr [])],
      viewerStatus = [(''isRunning'', JBool False), (''isGenerating'', JBool False),
                      (''error'', JStr [])],
      mixState = \<lparr>crossfaderAB = Fin (1/2), crossfaderAC = Fin (1/2), crossfaderBD = Fin (1/2),
                  crossfaderCD = Fin (1/2), decks = (\<lambda>_. defaultMixDeck)\<rparr>,
      deckMediaStates = (\<lambda>_. defaultDeckMediaState)\<rparr>"

text \<open>
  A connection: its socket (sockets are told apart by a number), the role it registered
  and whether \<^verbatim>\<open>ws.readyState === ws.OPEN\<close> at the time of the broadcast. The set
  \<^verbatim>\<open>clients\<close> is iterated in insertion order.
\<close>

record client =
  ws :: nat
  role :: jsval
  is_open :: bool

record server =
  state :: session_state
  clients :: "client list"

text \<open>
  A frame is a send on a socket. Its content is the value handed to \<^verbatim>\<open>JSON.stringify\<close>;
  the serialised text is not modelled.
\<close>

type_synonym frame = "nat \<times> jsval"

definition mixState_json :: "mix_state \<Rightarrow> jsval" where
  "mixState_json m =
     JObj [(''crossfaderAB'', JNum (crossfaderAB m)), (''crossfaderAC'', JNum (crossfaderAC m)),
           (''crossfaderBD'', JNum (crossfaderBD m)), (''crossfaderCD'', JNum (crossfaderCD m)),
           (''decks'', JObj [(''a'', JObj (decks m Deck_a)), (''b'', JObj (decks m Deck_b)),
                             (''c'', JObj (decks m Deck_c)), (''d'', JObj (decks m Deck_d))])]"

definition deckMediaState_json :: "deck_media_state \<Rightarrow> jsval" where
  "deckMediaState_json d =
     JObj [(''isPlaying'', JBool (isPlaying d)), (''progress'', JNum (progress d)),
           (''isLoading'', JBool (isLoading d)), (''error'', JBool (error d)), (''src'', src d)]"

definition broadcast :: "client list \<Rightarrow> jsval \<Rightarrow> nat option \<Rightarrow> frame list" where
  "broadcast cs message exclude =
     map (\<lambda>c. (ws c, message)) (filter (\<lambda>c. exclude \<noteq> Some (ws c) \<and> is_open c) cs)"

definition mix_state_message :: "mix_state \<Rightarrow> jsval" where
  "mix_state_message m = JObj [(''type'', JStr ''mix-state''), (''payload'', mixState_json m)]"

definition broadcastMixState :: "server \<Rightarrow> frame list" where
  "broadcastMixState s = broadcast (clients s) (mix_state_message (mixState (state s))) None"

section \<open>Crossfader updates (lines 151 to 171)\<close>

datatype crossfader_field = CrossfaderAB | CrossfaderAC | CrossfaderBD | CrossfaderCD

text \<open>
  \<^verbatim>\<open>crossfaderFieldMap[target]\<close>, followed by the test \<^verbatim>\<open>field in state.mixState\<close>. A target
  that names a member of \<^verbatim>\<open>Object.prototype\<close> reads a function from the map; a function
  is not the name of a field of the mix state, so the test rejects it like a missing
  entry.
\<close>

definition crossfaderFieldMap :: "string \<Rightarrow> crossfader_field option" where
  "crossfaderFieldMap target =
     map_of [(''main'', CrossfaderAB), (''ab'', CrossfaderAB), (''ac'', CrossfaderAC),
             (''bd'', CrossfaderBD), (''cd'', CrossfaderCD)] target"

fun set_crossfader :: "crossfader_field \<Rightarrow> jsnum \<Rightarrow> mix_state \<Rightarrow> mix_state" where
  "set_crossfader CrossfaderAB v m = m\<lparr>crossfaderAB := v\<rparr>"
| "set_crossfader CrossfaderAC v m = m\<lparr>crossfaderAC := v\<rparr>"
| "set_crossfader CrossfaderBD v m = m\<lparr>crossfaderBD := v\<rparr>"
| "set_crossfader CrossfaderCD v m = m\<lparr>crossfaderCD := v\<rparr>"


definition crossfader_target :: "jsval \<Rightarrow> crossfader_field option" where
  "crossfader_target payload =
     (case get payload ''target'' of
        JStr t \<Rightarrow>
          (let target = toLowerCase (trim t) in
           if target \<noteq> [] then crossfaderFieldMap target else None)
      | _ \<Rightarrow> None)"

text \<open>
  The result is the returned boolean, the server afterwards and the frames sent, or the
  exception that \<^verbatim>\<open>Number\<close> throws.
\<close>

definition applyCrossfaderUpdate ::
  "js_runtime \<Rightarrow> server \<Rightarrow> jsval \<Rightarrow> failure + bool \<times> server \<times> frame list" where
  "applyCrossfaderUpdate rt s payload =
     (if \<not> truthy payload then Inr (False, s, [])
      else
        (case crossfader_target payload of
           None \<Rightarrow> Inr (False, s, [])
         | Some field \<Rightarrow>
             (case ToNumber rt (nullish_or (get payload ''value'') (JNum (Fin 0))) of
                Inl e \<Rightarrow> Inl e
              | Inr n \<Rightarrow>
                  (let v = Math_min (Fin 1) (Math_max (Fin 0) n);
                       s' = s\<lparr>state := (state s)\<lparr>mixState := set_crossfader field v (mixState (state s))\<rparr>\<rparr>
                   in Inr (True, s', broadcastMixState s')))))"

section \<open>The message handler (lines 363 to 493)\<close>

text \<open>
  \<^verbatim>\<open>state.mixState.decks[deck]\<close> and \<^verbatim>\<open>state.deckMediaStates[deck]\<close> read a property by a
  computed key. The four decks are own properties. A key that names a member of
  \<^verbatim>\<open>Object.prototype\<close> reads that member, which is truthy; the handler then stores a
  fifth entry beside the four decks. The state type above has no place for it, and the
  model reports such a message as \<open>Prototype_key\<close>.
\<close>

definition Object_prototype_names :: "string list" where
  "Object_prototype_names =
     [''constructor'', ''__defineGetter__'', ''__defineSetter__'', ''hasOwnProperty'',
      ''__lookupGetter__'', ''__lookupSetter__'', ''isPrototypeOf'', ''propertyIsEnumerable'',
      ''toString'', ''valueOf'', ''__proto__'', ''toLocaleString'']"

datatype key_lookup = Own deck_key | Inherited | Absent

definition lookup_deck :: "string \<Rightarrow> key_lookup" where
  "lookup_deck k =
     (if k = ''a'' then Own Deck_a
      else if k = ''b'' then Own Deck_b
      else if k = ''c'' then Own Deck_c
      else if k = ''d'' then Own Deck_d
      else if k \<in> set Object_prototype_names then Inherited
      else Absent)"

text \<open>
  Lines 406 to 421: the partial data is spread over the deck, then the invariants are
  applied to the merged object. \<^verbatim>\<open>Number\<close> may throw.
\<close>

definition merge_deck :: "js_runtime \<Rightarrow> jsobj \<Rightarrow> jsval \<Rightarrow> failure + jsobj" where
  "merge_deck rt deck data =
     (let current = AList.merge deck (own_properties data);
          current1 =
            (if obj_get current ''type'' \<notin> set [JStr ''shader'', JStr ''video'', JStr ''generative'']
             then AList.update ''type'' JNull current else current);
          current2 =
            (if obj_get current1 ''type'' = JStr ''generative''
             then AList.update ''assetId'' JNull current1
             else if \<not> truthy (obj_get current1 ''assetId'') \<or> \<not> truthy (obj_get current1 ''type'')
             then AList.update ''assetId'' JNull (AList.update ''type'' JNull current1)
             else current1)
      in case ToNumber rt (nullish_or (obj_get current2 ''opacity'') (JNum (Fin 1))) of
           Inl e \<Rightarrow> Inl e
         | Inr n \<Rightarrow>
             (let current3 =
                    AList.update ''opacity'' (JNum (Math_min (Fin 1) (Math_max (Fin 0) n))) current2;
                  current4 =
                    AList.update ''enabled'' (JBool (truthy (obj_get current3 ''enabled''))) current3
              in Inr current4))"

definition update_mix_deck :: "js_runtime \<Rightarrow> server \<Rightarrow> jsval \<Rightarrow> failure + server \<times> frame list" where
  "update_mix_deck rt s message =
     (let deck = opt_get (get message ''payload'') ''deck'';
          data = or_else (opt_get (get message ''payload'') ''data'') (JObj []) in
      if \<not> truthy deck then Inr (s, [])
      else
        (case ToPropertyKey rt deck of
           Inl e \<Rightarrow> Inl e
         | Inr k \<Rightarrow>
             (case lookup_deck k of
                Absent \<Rightarrow> Inr (s, [])
              | Inherited \<Rightarrow> Inl Prototype_key
              | Own dk \<Rightarrow>
                  (case merge_deck rt (decks (mixState (state s)) dk) data of
                     Inl e \<Rightarrow> Inl e
                   | Inr current \<Rightarrow>
                       (let m = mixState (state s);
                            s' = s\<lparr>state := (state s)\<lparr>mixState := m\<lparr>decks := (decks m)(dk := current)\<rparr>\<rparr>\<rparr>
                        in Inr (s', broadcastMixState s'))))))"

definition deck_media_state_of :: "jsval \<Rightarrow> jsnum \<Rightarrow> deck_media_state" where
  "deck_media_state_of deckState n =
     \<lparr>isPlaying = truthy (get deckState ''isPlaying''),
      progress = Math_max (Fin 0) (Math_min (Fin 100) n),
      isLoading = truthy (get deckState ''isLoading''),
      error = truthy (get deckState ''error''),
      src = (case get deckState ''src'' of
               JStr str \<Rightarrow> if trim str \<noteq> [] then JStr str else JNull
             | _ \<Rightarrow> JNull)\<rparr>"

definition update_deck_media_state ::
  "js_runtime \<Rightarrow> server \<Rightarrow> nat \<Rightarrow> jsval \<Rightarrow> failure + server \<times> frame list" where
  "update_deck_media_state rt s sender message =
     (let deck = opt_get (get message ''payload'') ''deck'';
          deckState = opt_get (get message ''payload'') ''state'' in
      if \<not> truthy deck then Inr (s, [])
      else
        (case ToPropertyKey rt deck of
           Inl e \<Rightarrow> Inl e
         | Inr k \<Rightarrow>
             (case lookup_deck k of
                Absent \<Rightarrow> Inr (s, [])
              | found \<Rightarrow>
                  if \<not> truthy deckState then Inr (s, [])
                  else
                    (case ToNumber rt (nullish_or (get deckState ''progress'') (JNum (Fin 0))) of
                       Inl e \<Rightarrow> Inl e
                     | Inr n \<Rightarrow>
                         (case found of
                            Own dk \<Rightarrow>
                              (let d = deck_media_state_of deckState n;
                                   s' = s\<lparr>state := (state s)\<lparr>deckMediaStates :=
                                           (deckMediaStates (state s))(dk := d)\<rparr>\<rparr>
                               in Inr (s', broadcast (clients s')
                                        (JObj [(''type'', JStr ''deck-media-state''),
                                               (''payload'', JObj [(''deck'', deck),
                                                                   (''state'', deckMediaState_json d)])])
                                        (Some sender)))
                          | _ \<Rightarrow> Inl Prototype_key)))))"

definition handleRTCSignaling :: "server \<Rightarrow> nat \<Rightarrow> jsval \<Rightarrow> frame list" where
  "handleRTCSignaling s sender message =
     (case get message ''rtc'' of
        JStr r \<Rightarrow>
          (let rtcType = toLowerCase (trim r) in
           if rtcType \<notin> set [''offer'', ''answer'', ''ice-candidate'', ''request-offer''] then []
           else broadcast (clients s)
                  (JObj [(''type'', JStr ''rtc-signal''), (''rtc'', JStr rtcType),
                         (''payload'', nullish_or (get message ''payload'') JNull)])
                  (Some sender))
      | _ \<Rightarrow> [])"

definition set_role :: "nat \<Rightarrow> jsval \<Rightarrow> client list \<Rightarrow> client list" where
  "set_role sender r cs = map (\<lambda>c. if ws c = sender then c\<lparr>role := r\<rparr> else c) cs"

text \<open>
  The listener for a parsed message that arrived on the socket \<open>sender\<close>. Reading
  \<^verbatim>\<open>message.type\<close> of \<^verbatim>\<open>null\<close> throws. No exception is caught in the listener; what the
  process does after one is not modelled. Writes to the console are not modelled.
\<close>

definition on_message ::
  "js_runtime \<Rightarrow> server \<Rightarrow> nat \<Rightarrow> jsval \<Rightarrow> failure + server \<times> frame list" where
  "on_message rt s sender message =
     (if is_nullish message then Inl TypeError
      else
        (case get message ''type'' of
           JStr t \<Rightarrow>
             if t = ''register'' then
               Inr (s\<lparr>clients := set_role sender (or_else (get message ''role'') (JStr ''unknown''))
                                    (clients s)\<rparr>, [])
             else if t = ''update-fallback-layers'' then
               (let s' = s\<lparr>state := (state s)\<lparr>fallbackLayers :=
                               or_else (get message ''payload'') (JArr [])\<rparr>\<rparr>
                in Inr (s', broadcast (clients s')
                          (JObj [(''type'', JStr ''fallback-layers''),
                                 (''payload'', fallbackLayers (state s'))])
                          (Some sender)))
             else if t = ''update-control-settings'' then
               (let s' = s\<lparr>state := (state s)\<lparr>controlSettings :=
                               AList.merge (controlSettings (state s))
                                 (own_properties (or_else (get message ''payload'') (JObj [])))\<rparr>\<rparr>
                in Inr (s', broadcast (clients s')
                          (JObj [(''type'', JStr ''control-settings''),
                                 (''payload'', JObj (controlSettings (state s')))])
                          (Some sender)))
             else if t = ''update-mix-deck'' then update_mix_deck rt s message
             else if t = ''update-crossfader'' \<or> t = ''updateCrossfader'' then
               (case applyCrossfaderUpdate rt s (get message ''payload'') of
                  Inl e \<Rightarrow> Inl e
                | Inr (applied, s', frames) \<Rightarrow> Inr (s', frames))
             else if t = ''start-visualization'' \<or> t = ''stop-visualization''
                     \<or> t = ''regenerate-shader'' \<or> t = ''set-audio-sensitivity'' then
               Inr (s, broadcast (clients s) message (Some sender))
             else if t = ''viewer-status'' then
               (let s' = s\<lparr>state := (state s)\<lparr>viewerStatus :=
                               AList.merge (viewerStatus (state s))
                                 (own_properties (or_else (get message ''payload'') (JObj [])))\<rparr>\<rparr>
                in Inr (s', broadcast (clients s')
                          (JObj [(''type'', JStr ''viewer-status''),
                                 (''payload'', JObj (viewerStatus (state s')))])
                          (Some sender)))
             else if t = ''code-progress'' then
               Inr (s, broadcast (clients s) message (Some sender))
             else if t = ''deck-media-state'' then update_deck_media_state rt s sender message
             else if t = ''rtc-signal'' then Inr (s, handleRTCSignaling s sender message)
             else Inr (s, [])
         | _ \<Rightarrow> Inr (s, [])))"



text \<open>Two connections, a controller and a viewer, used in the examples.\<close>

definition example_server :: server where
  "example_server =
     \<lparr>state = initial_state,
      clients = [\<lparr>ws = 1, role = JStr ''controller'', is_open = True\<rparr>,
                 \<lparr>ws = 2, role = JStr ''viewer'', is_open = True\<rparr>]\<rparr>"

text \<open>
  A runtime for the examples. The only text that they convert to a number is \<^verbatim>\<open>abc\<close>,
  which is no numeric literal: \<^verbatim>\<open>Number\<close> gives \<^verbatim>\<open>NaN\<close>. None of them converts a number
  to text.
\<close>

definition example_runtime :: js_runtime where
  "example_runtime = \<lparr>StringToNumber = (\<lambda>_. NaN), NumberToString = (\<lambda>_. ''NaN'')\<rparr>"

text \<open>Messages used in the examples.\<close>

definition stop_message :: jsval where
  "stop_message = JObj [(''type'', JStr ''stop-visualization'')]"




definition video_deck_message :: jsval where
  "video_deck_message =
     JObj [(''type'', JStr ''update-mix-deck''),
           (''payload'', JObj [(''deck'', JStr ''a''),
                               (''data'', JObj [(''type'', JStr ''video''),
                                                (''assetId'', JStr ''cat/clip.mp4''),
                                                (''enabled'', JBool True)])])]"

definition generative_deck_message :: jsval where
  "generative_deck_message =
     JObj [(''type'', JStr ''update-mix-deck''),
           (''payload'', JObj [(''deck'', JStr ''a''),
                               (''data'', JObj [(''type'', JStr ''generative'')])])]"




section \<open>Properties of the streaming endpoint\<close>

lemmas range_eval = resolve_range_def match_bytes_range_def digits_to_number_def
  decimal_value_def digit_value_def round_binary64_def nearest_binary64_def is_digit_def
  not_satisfiable_check_def js_sub_def js_ge_def of_size_def to_binary64_def

lemmas path_eval = resolve_video_path_def trim_def is_white_space_def path_normalize_def
  normalizeString_def normalize_step_def is_leading_separator_def mp4Dir_def
  path_resolve_def example_env_def

lemma startsWith_iff: "startsWith s p \<longleftrightarrow> (\<exists>r. s = p @ r)"
  by (induction s p rule: startsWith.induct) auto

subsection \<open>Exact and rounded arithmetic\<close>

lemma to_binary64_int:
  "\<bar>of_int i :: real\<bar> \<le> 2 ^ 53 \<Longrightarrow> to_binary64 (of_int i) = Fin (of_int i)"
  by (simp add: to_binary64_def)

lemma real_le_2_53: "n \<le> 2 ^ 53 \<Longrightarrow> real n \<le> 2 ^ 53"
  by (metis of_nat_le_iff of_nat_numeral of_nat_power)

lemma round_half_even_nonneg: "0 \<le> x \<Longrightarrow> 0 \<le> round_half_even x"
  by (auto simp: round_half_even_def Let_def)

lemma to_binary64_negative:
  assumes "r < 0"
  shows "to_binary64 r = NegInf \<or> (\<exists>y. to_binary64 r = Fin y \<and> y \<le> 0)"
proof (cases "r = of_int \<lfloor>r\<rfloor> \<and> \<bar>r\<bar> \<le> 2 ^ 53")
  case True
  then have "to_binary64 r = Fin r" by (simp add: to_binary64_def)
  then show ?thesis using assms by simp
next
  case False
  define ulp :: real where "ulp = power_int 2 (binary64_exponent \<bar>r\<bar> - 52)"
  define v where "v = of_int (round_half_even (\<bar>r\<bar> / ulp)) * ulp"
  have "0 < ulp" unfolding ulp_def by simp
  then have "0 \<le> \<bar>r\<bar> / ulp" by simp
  then have "0 \<le> v" unfolding v_def using round_half_even_nonneg \<open>0 < ulp\<close> by simp
  have "to_binary64 r =
          (if 2 ^ 1024 \<le> v then (if 0 < r then PosInf else NegInf)
           else Fin (if 0 < r then v else - v))"
    by (simp only: to_binary64_def Let_def v_def ulp_def False if_False)
  moreover have "\<not> 0 < r" using assms by simp
  ultimately have "to_binary64 r = (if 2 ^ 1024 \<le> v then NegInf else Fin (- v))"
    by (simp only: if_False)
  then show ?thesis using \<open>0 \<le> v\<close> by auto
qed

lemma suffix_beyond_size:
  assumes "real sz < m"
  shows "Math_max (Fin 0) (js_sub (of_size sz) (Fin m)) = Fin 0"
proof -
  have "js_sub (of_size sz) (Fin m) = to_binary64 (real sz - m)"
    by (simp add: js_sub_def of_size_def)
  moreover have "real sz - m < 0" using assms by simp
  ultimately show ?thesis using to_binary64_negative [of "real sz - m"] by auto
qed

lemma nat_difference:
  assumes "b \<le> a" and "a \<le> 2 ^ 53"
  shows "js_sub (Fin (real a)) (Fin (real b)) = Fin (real (a - b))"
proof -
  have "real b \<le> real a" using assms(1) by simp
  then have bound: "\<bar>real a - real b\<bar> \<le> 2 ^ 53"
    using real_le_2_53 [OF assms(2)] by simp
  have "to_binary64 (real a - real b) = Fin (real a - real b)"
    using to_binary64_int [of "int a - int b"] bound by simp
  then show ?thesis using assms(1) by (simp add: js_sub_def)
qed

lemma last_byte:
  assumes "sz \<le> 2 ^ 53"
  shows "js_sub (of_size sz) (Fin 1) = Fin (real sz - 1)"
proof -
  have "real sz \<le> 2 ^ 53" using assms by (rule real_le_2_53)
  then have "\<bar>of_int (int sz - 1) :: real\<bar> \<le> 2 ^ 53" by simp
  from to_binary64_int [OF this] have "to_binary64 (real sz - 1) = Fin (real sz - 1)" by simp
  then show ?thesis by (simp add: js_sub_def of_size_def)
qed

text \<open>
  Above \<open>2 ^ 53\<close> the last byte is no longer exact: for a file of \<open>2 ^ 53 + 2\<close> bytes,
  \<^verbatim>\<open>stats.size - 1\<close> is \<open>2 ^ 53\<close>.
\<close>

lemma bit_length_numeral:
  "bit_length (numeral (Num.Bit0 n)) = Suc (bit_length (numeral n))"
  "bit_length (numeral (Num.Bit1 n)) = Suc (bit_length (numeral n))"
  "bit_length (Suc 0) = 1" "bit_length 1 = 1"
  by (subst bit_length.simps, simp add: bit_length.simps)+

lemma beyond_last_byte:
  "js_sub (of_size 9007199254740994) (Fin 1) = Fin 9007199254740992"
proof -
  have e: "binary64_exponent 9007199254740993 = 53"
    by (simp add: binary64_exponent_def bit_length_numeral)
  have f: "\<lfloor>9007199254740993 / 2 :: real\<rfloor> = 4503599627370496"
    by (simp add: floor_eq_iff)
  have r: "round_half_even (9007199254740993 / 2) = 4503599627370496"
    by (simp add: round_half_even_def f Let_def)
  have "to_binary64 9007199254740993 = Fin 9007199254740992"
    by (simp add: to_binary64_def e r Let_def)
  then show ?thesis by (simp add: js_sub_def of_size_def)
qed

lemma beyond_last_byte_Fin:
  "js_sub (Fin 9007199254740994) (Fin 1) = Fin 9007199254740992"
  using beyond_last_byte by (simp add: of_size_def)

lemma show_nat_0: "show_nat 0 = ''0''"
  by (simp add: show_nat.simps digit_char_def)

lemma empty_mp4_path:
  "resolve_video_path example_env ''music/empty.mp4'' = Inr ''/srv/app/mp4/music/empty.mp4''"
  by (simp add: path_eval)

lemma clip_mp4_path:
  "resolve_video_path example_env ''music/clip.mp4'' = Inr ''/srv/app/mp4/music/clip.mp4''"
  by (simp add: path_eval)

subsection \<open>Range resolution on the examples of the specification\<close>

text \<open>
  Claim C4. With a resource of 1000 bytes, \<^verbatim>\<open>bytes=0-99\<close> resolves to the bytes 0 to 99,
  \<^verbatim>\<open>bytes=-50\<close> to 950 to 999, \<^verbatim>\<open>bytes=900-2000\<close> to 900 to 999 (the end is clamped to
  the last byte), \<^verbatim>\<open>bytes=1000-\<close> is rejected and \<^verbatim>\<open>notbytes=x\<close> is rejected. The start
  1000 is not below the size; the test that fires for it is \<^verbatim>\<open>end < start\<close>, with the
  end defaulted to the last byte 999.
\<close>

theorem range_resolution_examples:
  "resolve_range ''bytes=0-99'' 1000 = Inr (Fin 0, Fin 99) \<and>
   resolve_range ''bytes=-50'' 1000 = Inr (Fin 950, Fin 999) \<and>
   resolve_range ''bytes=900-2000'' 1000 = Inr (Fin 900, Fin 999) \<and>
   resolve_range ''bytes=1000-'' 1000 = Inl ''Invalid Range'' \<and>
   js_ge (digits_to_number ''1000'') (of_size 1000) \<and>
   resolve_range ''notbytes=x'' 1000 = Inl ''Malformed Range header''"
  by (simp add: range_eval)

theorem range_resolution_examples_witness:
  "resolve_range ''bytes=900-2000'' 1000 = Inr (Fin 900, Fin 999) \<and>
   resolve_range ''bytes=1000-'' 1000 = Inl ''Invalid Range''"
  using range_resolution_examples by simp

subsection \<open>The header \<^verbatim>\<open>bytes=-\<close>\<close>

text \<open>
  Claim C6 says that \<^verbatim>\<open>bytes=-\<close> is rejected with 416 for every size. The pattern
  \<^verbatim>\<open>^bytes=(\d*)-(\d*)$\<close> matches it with two empty captures, the test for the suffix form
  asks for a non-empty end, and the other branch reads the empty start as 0. For the
  video of 1000 bytes the answer is 206.
\<close>

theorem bytes_dash_counterexample:
  "status (snd (stream_mp4 example_env example_stat ''music/clip.mp4'' (Some ''bytes=-''))) = 206"
  by (simp add: stream_mp4_def clip_mp4_path example_stat_def serve_file_def range_eval
      createReadStream_accepts_def)

lemma bytes_dash_match: "match_bytes_range ''bytes=-'' = Some ([], [])"
  by (simp add: match_bytes_range_def is_digit_def)

text \<open>
  Claim C6, amended. The header \<^verbatim>\<open>bytes=-\<close> has the required shape. For a regular file
  of size 0 it is rejected as an invalid range and the answer is 416; for every size from
  1 to \<open>2 ^ 53\<close> it resolves to the whole file, the bytes 0 to size - 1, the answer is 206
  and the file is piped.
\<close>

theorem bytes_dash_resolution:
  assumes "resolve_video_path env param0 = Inr p" and "stat p = Some st" and "isFile st"
    and "size_bytes st \<le> 2 ^ 53"
  shows "match_bytes_range ''bytes=-'' = Some ([], []) \<and>
         resolve_range ''bytes=-'' (size_bytes st) =
           (if size_bytes st = 0 then Inl ''Invalid Range''
            else Inr (Fin 0, Fin (real (size_bytes st) - 1))) \<and>
         status (snd (stream_mp4 env stat param0 (Some ''bytes=-''))) =
           (if size_bytes st = 0 then 416 else 206) \<and>
         body (snd (stream_mp4 env stat param0 (Some ''bytes=-''))) =
           (if size_bytes st = 0 then Text ''Invalid Range''
            else Piped_file p (Some (Fin 0, Fin (real (size_bytes st) - 1))))"
proof -
  note last = last_byte [OF assms(4)] last_byte [OF assms(4), unfolded of_size_def]
  have r: "resolve_range ''bytes=-'' (size_bytes st) =
           (if size_bytes st = 0 then Inl ''Invalid Range''
            else Inr (Fin 0, Fin (real (size_bytes st) - 1)))"
    by (simp add: resolve_range_def bytes_dash_match digits_to_number_def decimal_value_def
        round_binary64_def nearest_binary64_def not_satisfiable_check_def last js_ge_def
        of_size_def)
  have safe: "createReadStream_accepts (Fin 0) (Fin (real (size_bytes st) - 1))"
    if "size_bytes st \<noteq> 0"
  proof -
    have "real (size_bytes st) \<le> 2 ^ 53" using assms(4) by (rule real_le_2_53)
    moreover have "1 \<le> real (size_bytes st)" using that by simp
    moreover have "real (size_bytes st) - 1 = of_int (int (size_bytes st) - 1)" by simp
    ultimately show ?thesis
      unfolding createReadStream_accepts_def by (simp del: of_int_diff of_int_of_nat_eq)
  qed
  have "status (snd (stream_mp4 env stat param0 (Some ''bytes=-''))) =
           (if size_bytes st = 0 then 416 else 206) \<and>
        body (snd (stream_mp4 env stat param0 (Some ''bytes=-''))) =
           (if size_bytes st = 0 then Text ''Invalid Range''
            else Piped_file p (Some (Fin 0, Fin (real (size_bytes st) - 1))))"
    using assms(1-3) safe by (simp add: stream_mp4_def serve_file_def r range_rejected_def)
  then show ?thesis using r bytes_dash_match by simp
qed

theorem bytes_dash_resolution_witness:
  "status (snd (stream_mp4 example_env example_stat ''music/empty.mp4'' (Some ''bytes=-''))) = 416 \<and>
   resolve_range ''bytes=-'' 1000 = Inr (Fin 0, Fin 999) \<and>
   status (snd (stream_mp4 example_env example_stat ''music/clip.mp4'' (Some ''bytes=-''))) = 206 \<and>
   body (snd (stream_mp4 example_env example_stat ''music/clip.mp4'' (Some ''bytes=-''))) =
     Piped_file ''/srv/app/mp4/music/clip.mp4'' (Some (Fin 0, Fin 999))"
  using bytes_dash_resolution [OF empty_mp4_path, of example_stat "\<lparr>isFile = True, size_bytes = 0\<rparr>"]
        bytes_dash_resolution [OF clip_mp4_path, of example_stat "\<lparr>isFile = True, size_bytes = 1000\<rparr>"]
  by (simp add: example_stat_def)

text \<open>
  The bound is needed. For a file of \<open>2 ^ 53 + 2\<close> bytes the header resolves to the bytes
  0 to \<open>2 ^ 53\<close>; \<^verbatim>\<open>fs.createReadStream\<close> refuses that end, and the handler throws with
  nothing opened and nothing piped.
\<close>

lemma bytes_dash_unsafe_size:
  assumes "size_bytes st = 9007199254740994"
  shows "resolve_range ''bytes=-'' (size_bytes st) = Inr (Fin 0, Fin 9007199254740992)"
    and "\<not> createReadStream_accepts (Fin 0) (Fin 9007199254740992)"
    and "fst (serve_file p st (Some ''bytes=-'')) = []"
    and "body (snd (serve_file p st (Some ''bytes=-''))) = Nothing_sent"
proof -
  show r: "resolve_range ''bytes=-'' (size_bytes st) = Inr (Fin 0, Fin 9007199254740992)"
    by (simp add: assms resolve_range_def bytes_dash_match digits_to_number_def decimal_value_def
        round_binary64_def nearest_binary64_def not_satisfiable_check_def beyond_last_byte
        beyond_last_byte_Fin js_ge_def of_size_def Let_def)
  show a: "\<not> createReadStream_accepts (Fin 0) (Fin 9007199254740992)"
    by (simp add: createReadStream_accepts_def)
  show "fst (serve_file p st (Some ''bytes=-'')) = []"
    and "body (snd (serve_file p st (Some ''bytes=-''))) = Nothing_sent"
    using a by (simp_all add: serve_file_def r)
qed

subsection \<open>Resolved intervals\<close>

text \<open>
  Whenever a range is resolved for a resource of at most \<open>2 ^ 53\<close> bytes, its two ends
  are natural numbers, the start is not after the end and the end is below the size.
  These are the numbers the handler interpolates into \<^verbatim>\<open>Content-Range\<close>.
\<close>

lemma round_binary64_cases:
  "round_binary64 n = PosInf \<or> (\<exists>m. round_binary64 n = Fin (real m))"
  by (auto simp: round_binary64_def Let_def)

lemma digits_to_number_cases:
  "digits_to_number s = PosInf \<or> (\<exists>m. digits_to_number s = Fin (real m))"
  unfolding digits_to_number_def by (rule round_binary64_cases)

lemma suffix_interval:
  assumes le: "sz \<le> 2 ^ 53"
    and "0 < m" and "not_satisfiable_check sz (Math_max (Fin 0) (js_sub (of_size sz) (Fin (real m))))
             (js_sub (of_size sz) (Fin 1)) = Inr (start, end')"
  shows "start = Fin (real (sz - m)) \<and> end' = Fin (real (sz - 1)) \<and> sz - m \<le> sz - 1 \<and> sz - 1 < sz"
proof -
  have mx: "Math_max (Fin 0) (js_sub (of_size sz) (Fin (real m))) = Fin (real (sz - m))"
  proof (cases "m \<le> sz")
    case True
    then show ?thesis using nat_difference [OF True le] by (simp add: of_size_def)
  next
    case False
    then have "real sz < real m" by simp
    then show ?thesis using False by (simp add: suffix_beyond_size)
  qed
  have "0 < sz"
  proof (rule ccontr)
    assume "\<not> 0 < sz"
    then have "sz = 0" by simp
    then show False using assms(3) unfolding mx
      by (simp add: not_satisfiable_check_def js_ge_def of_size_def)
  qed
  then have e: "js_sub (of_size sz) (Fin 1) = Fin (real (sz - 1))"
    using last_byte [OF le] by (simp add: of_nat_diff)
  show ?thesis
    using assms(2,3) \<open>0 < sz\<close> unfolding mx e
    by (auto simp: not_satisfiable_check_def split: if_splits)
qed

lemma explicit_interval:
  assumes "not_satisfiable_check sz (Fin (real a)) (Math_min e (js_sub (of_size sz) (Fin 1))) = Inr (start, end')"
    and "e = Fin (real b) \<or> e = js_sub (of_size sz) (Fin 1)" and "\<not> js_lt e (Fin (real a))"
    and le: "sz \<le> 2 ^ 53"
  shows "\<exists>b'. start = Fin (real a) \<and> end' = Fin (real b') \<and> a \<le> b' \<and> b' < sz"
proof -
  have lt: "a < sz"
    using assms(1) by (auto simp: not_satisfiable_check_def js_ge_def of_size_def split: if_splits)
  then have last: "js_sub (of_size sz) (Fin 1) = Fin (real (sz - 1))"
    using last_byte [OF le] by (simp add: of_nat_diff)
  from assms(2) show ?thesis
  proof
    assume e: "e = Fin (real b)"
    then have "a \<le> b" using assms(3) by simp
    have "Math_min e (js_sub (of_size sz) (Fin 1)) = Fin (real (min b (sz - 1)))"
      unfolding last e by (auto simp: min_def)
    then have "start = Fin (real a) \<and> end' = Fin (real (min b (sz - 1)))"
      using assms(1) by (auto simp: not_satisfiable_check_def split: if_splits)
    moreover have "a \<le> min b (sz - 1) \<and> min b (sz - 1) < sz"
      using lt \<open>a \<le> b\<close> by auto
    ultimately show ?thesis by blast
  next
    assume e: "e = js_sub (of_size sz) (Fin 1)"
    have "Math_min e (js_sub (of_size sz) (Fin 1)) = Fin (real (sz - 1))"
      unfolding e last by simp
    then have "start = Fin (real a) \<and> end' = Fin (real (sz - 1))"
      using assms(1) by (auto simp: not_satisfiable_check_def split: if_splits)
    moreover have "a \<le> sz - 1 \<and> sz - 1 < sz"
      using lt by auto
    ultimately show ?thesis by blast
  qed
qed

lemma resolve_range_interval:
  assumes "resolve_range h sz = Inr (start, end')" and le: "sz \<le> 2 ^ 53"
  shows "\<exists>a b. start = Fin (real a) \<and> end' = Fin (real b) \<and> a \<le> b \<and> b < sz"
proof (cases "match_bytes_range h")
  case None
  then show ?thesis using assms by (simp add: resolve_range_def)
next
  case (Some m)
  obtain startString endString where m: "m = (startString, endString)" by (cases m)
  show ?thesis
  proof (cases "startString = [] \<and> endString \<noteq> []")
    case True
    from digits_to_number_cases [of endString] show ?thesis
    proof
      assume "digits_to_number endString = PosInf"
      then show ?thesis using assms Some m True by (simp add: resolve_range_def)
    next
      assume "\<exists>k. digits_to_number endString = Fin (real k)"
      then obtain k where k: "digits_to_number endString = Fin (real k)" by blast
      have "0 < k \<and> not_satisfiable_check sz (Math_max (Fin 0) (js_sub (of_size sz) (Fin (real k))))
             (js_sub (of_size sz) (Fin 1)) = Inr (start, end')"
        using assms Some m True k by (simp add: resolve_range_def split: if_splits)
      then show ?thesis using suffix_interval [OF le, of k start end'] by blast
    qed
  next
    case False
    from digits_to_number_cases [of startString] show ?thesis
    proof
      assume "digits_to_number startString = PosInf"
      then show ?thesis using assms Some m False by (auto simp: resolve_range_def)
    next
      assume "\<exists>a. digits_to_number startString = Fin (real a)"
      then obtain a where a: "digits_to_number startString = Fin (real a)" by blast
      define e where "e = (if endString \<noteq> [] then digits_to_number endString
                            else js_sub (of_size sz) (Fin 1))"
      have run: "Number_isFinite e \<and> \<not> js_lt e (Fin (real a)) \<and>
            not_satisfiable_check sz (Fin (real a)) (Math_min e (js_sub (of_size sz) (Fin 1))) =
              Inr (start, end')"
        using assms Some m False a unfolding e_def
        by (auto simp: resolve_range_def Let_def split: if_splits)
      have "(\<exists>b. e = Fin (real b)) \<or> e = js_sub (of_size sz) (Fin 1)"
        using digits_to_number_cases [of endString] run unfolding e_def by (auto split: if_splits)
      then obtain b where "e = Fin (real b) \<or> e = js_sub (of_size sz) (Fin 1)" by blast
      from explicit_interval [OF conjunct2 [OF conjunct2 [OF run]] this conjunct1 [OF conjunct2 [OF run]] le]
      show ?thesis by blast
    qed
  qed
qed

subsection \<open>Files of size 0\<close>

lemma empty_file_not_satisfiable:
  "0 \<le> a \<Longrightarrow> not_satisfiable_check 0 (Fin a) e = Inl ''Range Not Satisfiable''"
  by (simp add: not_satisfiable_check_def js_ge_def of_size_def)

lemma empty_file_suffix:
  "0 < m \<Longrightarrow> Math_max (Fin 0) (js_sub (of_size 0) (Fin m)) = Fin 0"
  using suffix_beyond_size [of 0 m] by simp

lemma empty_file_last_byte: "js_sub (of_size 0) (Fin 1) = Fin (- 1)"
  using last_byte [of 0] by simp

lemma resolve_range_empty_file: "\<exists>msg. resolve_range h 0 = Inl msg"
proof (cases "match_bytes_range h")
  case None
  then show ?thesis by (simp add: resolve_range_def)
next
  case (Some m)
  obtain startString endString where m: "m = (startString, endString)" by (cases m)
  show ?thesis
  proof (cases "startString = [] \<and> endString \<noteq> []")
    case True
    then show ?thesis using Some m
      by (cases "digits_to_number endString")
         (auto simp: resolve_range_def Let_def empty_file_suffix empty_file_not_satisfiable)
  next
    case False
    then show ?thesis using Some m
      by (cases "digits_to_number startString"; cases "digits_to_number endString")
         (auto simp: resolve_range_def Let_def empty_file_last_byte empty_file_not_satisfiable)
  qed
qed

lemma serve_empty_file:
  assumes "size_bytes st = 0" "h \<noteq> []"
  shows "\<exists>msg. serve_file p st (Some h) = ([], range_rejected 0 msg)"
proof -
  obtain msg where "resolve_range h 0 = Inl msg"
    using resolve_range_empty_file by blast
  then show ?thesis using assms by (auto simp: serve_file_def)
qed

text \<open>
  Claim C9 says that for a regular file of size 0 every request that carries a Range
  header, of any content, is answered 416. The handler tests \<^verbatim>\<open>!rangeHeader\<close>, which also
  holds for a header whose value is the empty string: that request is answered 200 with
  the whole (empty) file.
\<close>

theorem empty_range_header_counterexample:
  "status (snd (stream_mp4 example_env example_stat ''music/empty.mp4'' (Some ''''))) = 200"
  by (simp add: stream_mp4_def empty_mp4_path example_stat_def serve_file_def whole_file_def)

text \<open>
  Claim C9, amended. For a regular file of size 0, every request whose Range header is
  not the empty string, well-formed or not, is answered 416 with
  \<^verbatim>\<open>Content-Range: bytes */0\<close> and no read stream is opened; a request with no Range
  header is answered 200 with \<^verbatim>\<open>Content-Length: 0\<close> and the file is piped.
\<close>

theorem empty_file_range_requests:
  assumes "resolve_video_path env param0 = Inr p" and "stat p = Some st"
    and "isFile st" and "size_bytes st = 0"
  shows "(h \<noteq> [] \<longrightarrow>
            fst (stream_mp4 env stat param0 (Some h)) = [Stat p] \<and>
            status (snd (stream_mp4 env stat param0 (Some h))) = 416 \<and>
            headers (snd (stream_mp4 env stat param0 (Some h))) =
              [(''Content-Range'', ''bytes */0'')]) \<and>
         stream_mp4 env stat param0 None =
           ([Stat p, CreateReadStream p None],
            \<lparr>status = 200,
             headers = [(''Content-Length'', ''0''), (''Content-Type'', ''video/mp4''),
                        (''Accept-Ranges'', ''bytes'')],
             body = Piped_file p None\<rparr>)"
proof -
  have "stream_mp4 env stat param0 None =
           ([Stat p, CreateReadStream p None],
            \<lparr>status = 200,
             headers = [(''Content-Length'', ''0''), (''Content-Type'', ''video/mp4''),
                        (''Accept-Ranges'', ''bytes'')],
             body = Piped_file p None\<rparr>)"
    using assms by (simp add: stream_mp4_def serve_file_def whole_file_def show_nat_0)
  moreover have "fst (stream_mp4 env stat param0 (Some h)) = [Stat p] \<and>
            status (snd (stream_mp4 env stat param0 (Some h))) = 416 \<and>
            headers (snd (stream_mp4 env stat param0 (Some h))) =
              [(''Content-Range'', ''bytes */0'')]"
    if h: "h \<noteq> []"
  proof -
    obtain msg where "serve_file p st (Some h) = ([], range_rejected 0 msg)"
      using serve_empty_file [OF assms(4) h] by blast
    then show ?thesis using assms
      by (simp add: stream_mp4_def range_rejected_def show_nat_0)
  qed
  ultimately show ?thesis by blast
qed

theorem empty_file_range_requests_witness:
  "fst (stream_mp4 example_env example_stat ''music/empty.mp4'' (Some ''bytes=0-'')) =
     [Stat ''/srv/app/mp4/music/empty.mp4''] \<and>
   status (snd (stream_mp4 example_env example_stat ''music/empty.mp4'' (Some ''bytes=0-''))) = 416 \<and>
   headers (snd (stream_mp4 example_env example_stat ''music/empty.mp4'' (Some ''bytes=0-''))) =
     [(''Content-Range'', ''bytes */0'')] \<and>
   status (snd (stream_mp4 example_env example_stat ''music/empty.mp4'' None)) = 200"
  using empty_file_range_requests [OF empty_mp4_path, of example_stat
      "\<lparr>isFile = True, size_bytes = 0\<rparr>" "''bytes=0-''"]
  by (simp add: example_stat_def)

subsection \<open>Paths stay below the asset root\<close>

lemma split_on_not_Nil: "split_on c s \<noteq> []"
  by (induction s) (auto split: list.splits)

lemma split_on_append: "split_on c (a @ c # b) = split_on c a @ split_on c b"
proof (induction a)
  case Nil
  then show ?case by simp
next
  case (Cons x a)
  then show ?case
    using split_on_not_Nil [of c a] by (cases "split_on c a") auto
qed

lemma split_on_no_sep: "seg \<in> set (split_on c s) \<Longrightarrow> c \<notin> set seg"
  by (induction s arbitrary: seg) (auto split: if_splits list.splits)

lemma split_on_single: "c \<notin> set seg \<Longrightarrow> split_on c seg = [seg]"
  by (induction seg) auto

lemma split_on_join:
  "segs \<noteq> [] \<Longrightarrow> \<forall>seg \<in> set segs. c \<notin> set seg \<Longrightarrow> split_on c (join_with c segs) = segs"
proof (induction c segs rule: join_with.induct)
  case (1 sep)
  then show ?case by simp
next
  case (2 sep seg)
  then show ?case by (simp add: split_on_single)
next
  case (3 sep seg seg' segs)
  then show ?case by (simp add: split_on_append split_on_single)
qed

lemma join_with_append:
  "r \<noteq> [] \<Longrightarrow> f \<noteq> [] \<Longrightarrow> join_with c (r @ f) = join_with c r @ c # join_with c f"
proof (induction c r rule: join_with.induct)
  case (1 sep)
  then show ?case by simp
next
  case (2 sep seg)
  then show ?case by (cases f) auto
next
  case (3 sep seg seg' segs)
  then show ?case by simp
qed

lemma normalize_no_dotdot:
  "''..'' \<notin> set segs \<Longrightarrow>
   foldl (normalize_step a) acc segs = acc @ filter kept_segment segs"
  by (induction segs arbitrary: acc) (auto simp: normalize_step_def kept_segment_def)

lemma normalize_step_clean:
  assumes "\<forall>s \<in> set acc. clean_segment s" "CHR ''/'' \<notin> set seg"
  shows "\<forall>s \<in> set (normalize_step False acc seg). clean_segment s"
  using assms by (auto simp: normalize_step_def clean_segment_def dest: in_set_butlastD)

lemma normalize_clean:
  "\<forall>s \<in> set acc. clean_segment s \<Longrightarrow> \<forall>s \<in> set segs. CHR ''/'' \<notin> set s \<Longrightarrow>
   \<forall>s \<in> set (foldl (normalize_step False) acc segs). clean_segment s"
proof (induction segs arbitrary: acc)
  case Nil
  then show ?case by simp
next
  case (Cons seg segs)
  have "\<forall>s \<in> set (normalize_step False acc seg). clean_segment s"
    using Cons.prems by (intro normalize_step_clean) auto
  then show ?case using Cons by simp
qed

lemma includes_str_infix: "includes_str (a @ p @ b) p"
proof (induction a)
  case Nil
  have sw: "startsWith (p @ b) p" by (simp add: startsWith_iff)
  show ?case
  proof (cases "p @ b")
    case Nil
    then show ?thesis by simp
  next
    case (Cons x xs)
    then show ?thesis using sw by simp
  qed
next
  case (Cons x a)
  then show ?case by simp
qed

lemma first_segment_prefix: "split_on c s = seg # segs \<Longrightarrow> \<exists>b. s = seg @ b"
  by (induction s arbitrary: seg segs) (auto split: if_splits list.splits)

lemma segment_infix: "seg \<in> set (split_on c s) \<Longrightarrow> \<exists>a b. s = a @ seg @ b"
proof (induction s arbitrary: seg)
  case Nil
  then show ?case by simp
next
  case (Cons x s)
  show ?case
  proof (cases "x = c")
    case True
    with Cons.prems have "seg = [] \<or> seg \<in> set (split_on c s)" by auto
    then show ?thesis
    proof
      assume "seg = []"
      then have "x # s = [] @ seg @ (x # s)" by simp
      then show ?thesis by blast
    next
      assume "seg \<in> set (split_on c s)"
      then obtain a b where "s = a @ seg @ b" using Cons.IH by blast
      then have "x # s = (x # a) @ seg @ b" by simp
      then show ?thesis by blast
    qed
  next
    case False
    obtain sg sgs where sp: "split_on c s = sg # sgs"
      using split_on_not_Nil [of c s] by (cases "split_on c s") auto
    with False Cons.prems have "seg = x # sg \<or> seg \<in> set sgs" by auto
    then show ?thesis
    proof
      assume "seg = x # sg"
      moreover obtain b where "s = sg @ b" using first_segment_prefix [OF sp] by blast
      ultimately have "x # s = [] @ seg @ b" by simp
      then show ?thesis by blast
    next
      assume "seg \<in> set sgs"
      then have "seg \<in> set (split_on c s)" using sp by simp
      then obtain a b where "s = a @ seg @ b" using Cons.IH by blast
      then have "x # s = (x # a) @ seg @ b" by simp
      then show ?thesis by blast
    qed
  qed
qed

lemma no_dotdot_segment:
  assumes "\<not> includes_str s ''..''"
  shows "''..'' \<notin> set (split_on c s)"
proof
  assume "''..'' \<in> set (split_on c s)"
  then obtain a b where "s = a @ ''..'' @ b" using segment_infix by blast
  then have "includes_str s ''..''" using includes_str_infix [of a "''..''" b] by simp
  with assms show False by simp
qed

text \<open>The asset root is an absolute path of clean segments.\<close>

lemma mp4Dir_shape:
  assumes "dirname env \<noteq> []" "hd (dirname env) = CHR ''/''"
  shows "\<exists>r. r \<noteq> [] \<and> (\<forall>s \<in> set r. clean_segment s) \<and>
             mp4Dir env = CHR ''/'' # join_with (CHR ''/'') r"
proof -
  define a where "a = foldl (normalize_step False) [] (split_on (CHR ''/'') (dirname env))"
  define a' where "a' = normalize_step False a ''..''"
  have a: "\<forall>s \<in> set a. clean_segment s"
    unfolding a_def by (intro normalize_clean) (auto dest: split_on_no_sep)
  then have a': "\<forall>s \<in> set a'. clean_segment s"
    unfolding a'_def by (intro normalize_step_clean) auto
  have "dirname env @ ''/'' @ ''../mp4'' @ ''/'' @ [] = dirname env @ CHR ''/'' # ''../mp4/''"
    by simp
  have sp: "split_on (CHR ''/'') (dirname env @ CHR ''/'' # ''../mp4/'') =
        split_on (CHR ''/'') (dirname env) @ [''..'', ''mp4'', []]"
    by (simp add: split_on_append)
  have "foldl (normalize_step False) [] (split_on (CHR ''/'') (dirname env @ CHR ''/'' # ''../mp4/''))
        = a' @ [''mp4'']"
    unfolding sp by (simp add: a_def a'_def normalize_step_def)
  then have "mp4Dir env = CHR ''/'' # join_with (CHR ''/'') (a' @ [''mp4''])"
    using assms by (simp add: mp4Dir_def path_resolve_def normalizeString_def)
  moreover have "\<forall>s \<in> set (a' @ [''mp4'']). clean_segment s"
    using a' by (auto simp: clean_segment_def)
  ultimately show ?thesis by blast
qed

lemma clean_kept: "\<forall>s \<in> set r. clean_segment s \<Longrightarrow> filter kept_segment r = r"
  by (induction r) (auto simp: clean_segment_def kept_segment_def)

lemma kept_segment_Nil: "\<not> kept_segment []"
  by (simp add: kept_segment_def)

lemma resolve_under_root:
  assumes r: "r \<noteq> []" "\<forall>s \<in> set r. clean_segment s"
    and rootp: "rootp = CHR ''/'' # join_with (CHR ''/'') r"
    and np: "np = [] \<or> hd np \<noteq> CHR ''/''" "\<not> includes_str np ''..''"
  shows "path_resolve cwd' [rootp, np] =
           CHR ''/'' # join_with (CHR ''/'') (r @ filter kept_segment (split_on (CHR ''/'') np))"
proof -
  have nosep: "\<forall>s \<in> set r. CHR ''/'' \<notin> set s" using r(2) by (auto simp: clean_segment_def)
  have sr: "split_on (CHR ''/'') rootp = [] # r"
    using r(1) nosep by (simp add: rootp split_on_join)
  have nd: "''..'' \<notin> set r" using r(2) by (auto simp: clean_segment_def)
  have nd2: "''..'' \<notin> set (split_on (CHR ''/'') np)" using np(2) by (rule no_dotdot_segment)
  show ?thesis
  proof (cases "np = []")
    case True
    have sp: "split_on (CHR ''/'') (rootp @ ''/'') = [] # r @ [[]]"
      using split_on_append [of "CHR ''/''" rootp "[]"] sr by simp
    have "''..'' \<notin> set ([] # r @ [[]])" using nd by simp
    then have "foldl (normalize_step False) [] ([] # r @ [[]]) =
                 [] @ filter kept_segment ([] # r @ [[]])"
      by (rule normalize_no_dotdot)
    also have "\<dots> = r" by (simp add: kept_segment_Nil clean_kept [OF r(2)])
    finally have "foldl (normalize_step False) [] (split_on (CHR ''/'') (rootp @ ''/'')) = r"
      using sp by simp
    then show ?thesis using True
      by (simp add: path_resolve_def normalizeString_def rootp kept_segment_def)
  next
    case False
    then have h: "hd np \<noteq> CHR ''/''" using np(1) by simp
    have sp: "split_on (CHR ''/'') (rootp @ CHR ''/'' # (np @ ''/'')) =
            [] # r @ split_on (CHR ''/'') np @ [[]]"
      using split_on_append [of "CHR ''/''" rootp "np @ ''/''"]
            split_on_append [of "CHR ''/''" np "[]"] sr by simp
    have "''..'' \<notin> set ([] # r @ split_on (CHR ''/'') np @ [[]])" using nd nd2 by simp
    then have "foldl (normalize_step False) [] ([] # r @ split_on (CHR ''/'') np @ [[]]) =
                 [] @ filter kept_segment ([] # r @ split_on (CHR ''/'') np @ [[]])"
      by (rule normalize_no_dotdot)
    also have "\<dots> = r @ filter kept_segment (split_on (CHR ''/'') np)"
      by (simp add: kept_segment_Nil clean_kept [OF r(2)])
    finally have "foldl (normalize_step False) [] (split_on (CHR ''/'') (rootp @ CHR ''/'' # (np @ ''/'')))
          = r @ filter kept_segment (split_on (CHR ''/'') np)"
      using sp by simp
    then show ?thesis using False h
      by (simp add: path_resolve_def normalizeString_def rootp)
  qed
qed

lemma join_under_root:
  "r \<noteq> [] \<Longrightarrow>
   CHR ''/'' # join_with (CHR ''/'') (r @ f) =
     (CHR ''/'' # join_with (CHR ''/'') r) @ concat (map ((#) (CHR ''/'')) f)"
proof (induction f rule: rev_induct)
  case Nil
  then show ?case by simp
next
  case (snoc x f)
  have "join_with (CHR ''/'') ((r @ f) @ [x]) = join_with (CHR ''/'') (r @ f) @ CHR ''/'' # x"
    using snoc.prems by (subst join_with_append) auto
  then show ?case using snoc by simp
qed

lemma resolve_video_path_inside:
  assumes "resolve_video_path env param0 = Inr p"
  shows "p = mp4Dir env \<or> (\<exists>rest. p = mp4Dir env @ ''/'' @ rest)"
  using assms
  by (auto simp: resolve_video_path_def Let_def startsWith_iff split: if_splits)

lemma resolve_video_path_early:
  assumes "resolve_video_path env param0 = Inl r"
  shows "r = sendStatus 404 \<or> r = invalid_video_path"
  using assms by (auto simp: resolve_video_path_def Let_def split: if_splits)

lemma serve_file_status:
  "status (snd (serve_file p st rh)) \<in> {200, 206, 416}"
  by (auto simp: serve_file_def whole_file_def range_rejected_def Let_def
      split: option.splits sum.splits)

lemma serve_file_reads:
  "a \<in> set (fst (serve_file p st rh)) \<Longrightarrow> accessed_path a = p"
  by (auto simp: serve_file_def whole_file_def range_rejected_def Let_def
      split: option.splits sum.splits if_splits)

lemma stream_mp4_accesses:
  assumes "a \<in> set (fst (stream_mp4 env stat param0 rh))"
  shows "resolve_video_path env param0 = Inr (accessed_path a)"
proof (cases "resolve_video_path env param0")
  case (Inl r)
  then show ?thesis using assms by (simp add: stream_mp4_def)
next
  case (Inr p)
  show ?thesis
  proof (cases "stat p")
    case None
    then show ?thesis using Inr assms by (simp add: stream_mp4_def)
  next
    case (Some st)
    obtain reads r where sf: "serve_file p st rh = (reads, r)" by (cases "serve_file p st rh")
    have "\<forall>b \<in> set reads. accessed_path b = p"
      using serve_file_reads [of _ p st rh] sf by auto
    then show ?thesis using Inr Some sf assms
      by (cases "isFile st") (auto simp: stream_mp4_def)
  qed
qed

lemma stream_mp4_400:
  assumes "status (snd (stream_mp4 env stat param0 rh)) = 400"
  shows "fst (stream_mp4 env stat param0 rh) = []"
proof (cases "resolve_video_path env param0")
  case (Inl r)
  then show ?thesis by (simp add: stream_mp4_def)
next
  case (Inr p)
  show ?thesis
  proof (cases "stat p")
    case None
    then show ?thesis using Inr assms by (simp add: stream_mp4_def sendStatus_def)
  next
    case (Some st)
    obtain reads r where sf: "serve_file p st rh = (reads, r)" by (cases "serve_file p st rh")
    have "status r \<noteq> 400" using serve_file_status [of p st rh] sf by auto
    then show ?thesis using Inr Some sf assms
      by (cases "isFile st") (auto simp: stream_mp4_def sendStatus_def)
  qed
qed

lemma kept_segments_clean:
  assumes "\<not> includes_str np ''..''"
  shows "\<forall>s \<in> set (filter kept_segment (split_on (CHR ''/'') np)). clean_segment s"
proof
  fix s assume s: "s \<in> set (filter kept_segment (split_on (CHR ''/'') np))"
  then have "s \<in> set (split_on (CHR ''/'') np)" and k: "kept_segment s" by simp_all
  then have "CHR ''/'' \<notin> set s" and "s \<noteq> ''..''"
    using split_on_no_sep [of s "CHR ''/''" np] no_dotdot_segment [OF assms, of "CHR ''/''"]
    by auto
  then show "clean_segment s" using k by (simp add: clean_segment_def kept_segment_def)
qed

lemma resolve_video_path_clean:
  assumes r: "r \<noteq> []" "\<forall>s \<in> set r. clean_segment s"
    and rootp: "mp4Dir env = CHR ''/'' # join_with (CHR ''/'') r"
    and p: "resolve_video_path env param0 = Inr p"
  shows "\<exists>segs. (\<forall>s \<in> set segs. clean_segment s) \<and>
           p = CHR ''/'' # join_with (CHR ''/'') (r @ segs) \<and>
           p = mp4Dir env @ concat (map ((#) (CHR ''/'')) segs)"
proof -
  define np where "np = dropWhile is_leading_separator (path_normalize (trim param0))"
  define segs where "segs = filter kept_segment (split_on (CHR ''/'') np)"
  have nd: "\<not> includes_str np ''..''" and pr: "p = path_resolve (cwd env) [mp4Dir env, np]"
    using p by (auto simp: resolve_video_path_def Let_def np_def split: if_splits)
  have "np = [] \<or> \<not> is_leading_separator (hd np)"
    unfolding np_def using hd_dropWhile [of is_leading_separator] by blast
  then have np: "np = [] \<or> hd np \<noteq> CHR ''/''"
    by (auto simp: is_leading_separator_def)
  have 1: "p = CHR ''/'' # join_with (CHR ''/'') (r @ segs)"
    unfolding pr segs_def by (rule resolve_under_root [OF r rootp np nd])
  then have 2: "p = mp4Dir env @ concat (map ((#) (CHR ''/'')) segs)"
    using join_under_root [OF r(1)] rootp by simp
  have 3: "\<forall>s \<in> set segs. clean_segment s"
    unfolding segs_def using nd by (rule kept_segments_clean)
  show ?thesis
    by (intro exI [of _ segs] conjI 3 1 2)
qed

text \<open>
  Claim C2. For every request, a response 400 comes with no file system access at all,
  and every path the handler inspects or opens is the video asset root itself or begins
  with the root followed by a separator. With \<^verbatim>\<open>__dirname\<close> an absolute path, as Node.js
  provides it, the root is \<^verbatim>\<open>/\<close> followed by segments joined by \<^verbatim>\<open>/\<close>, and every such
  path is the root followed by further segments, each of them not empty, not \<^verbatim>\<open>.\<close>, not
  \<^verbatim>\<open>..\<close> and free of separators: no path that is inspected or opened leaves the root. The
  path \<^verbatim>\<open>../../etc/passwd\<close> is answered 400 without any access, whatever the deployment.
\<close>

theorem file_system_access_inside_mp4Dir:
  "(status (snd (stream_mp4 env stat param0 rh)) = 400 \<longrightarrow>
      fst (stream_mp4 env stat param0 rh) = []) \<and>
   (\<forall>a \<in> set (fst (stream_mp4 env stat param0 rh)).
      accessed_path a = mp4Dir env \<or> (\<exists>rest. accessed_path a = mp4Dir env @ ''/'' @ rest)) \<and>
   (dirname env \<noteq> [] \<and> hd (dirname env) = CHR ''/'' \<longrightarrow>
      (\<exists>r. r \<noteq> [] \<and> (\<forall>s \<in> set r. clean_segment s) \<and>
           mp4Dir env = CHR ''/'' # join_with (CHR ''/'') r \<and>
           (\<forall>a \<in> set (fst (stream_mp4 env stat param0 rh)).
              \<exists>segs. (\<forall>s \<in> set segs. clean_segment s) \<and>
                accessed_path a = CHR ''/'' # join_with (CHR ''/'') (r @ segs) \<and>
                accessed_path a = mp4Dir env @ concat (map ((#) (CHR ''/'')) segs)))) \<and>
   stream_mp4 env stat ''../../etc/passwd'' rh = ([], invalid_video_path) \<and>
   status invalid_video_path = 400"
proof -
  have etc: "stream_mp4 env stat ''../../etc/passwd'' rh = ([], invalid_video_path)"
    by (simp add: stream_mp4_def resolve_video_path_def trim_def is_white_space_def
        path_normalize_def normalizeString_def normalize_step_def is_leading_separator_def)
  have st400: "status invalid_video_path = 400" by (simp add: invalid_video_path_def)
  have no_access: "status (snd (stream_mp4 env stat param0 rh)) = 400 \<longrightarrow>
      fst (stream_mp4 env stat param0 rh) = []"
    using stream_mp4_400 by blast
  have below: "\<exists>r. r \<noteq> [] \<and> (\<forall>s \<in> set r. clean_segment s) \<and>
           mp4Dir env = CHR ''/'' # join_with (CHR ''/'') r \<and>
           (\<forall>a \<in> set (fst (stream_mp4 env stat param0 rh)).
              \<exists>segs. (\<forall>s \<in> set segs. clean_segment s) \<and>
                accessed_path a = CHR ''/'' # join_with (CHR ''/'') (r @ segs) \<and>
                accessed_path a = mp4Dir env @ concat (map ((#) (CHR ''/'')) segs))"
    if abs: "dirname env \<noteq> [] \<and> hd (dirname env) = CHR ''/''"
  proof -
    obtain r where r: "r \<noteq> []" "\<forall>s \<in> set r. clean_segment s"
      and rootp: "mp4Dir env = CHR ''/'' # join_with (CHR ''/'') r"
      using mp4Dir_shape [of env] abs by blast
    have "\<forall>a \<in> set (fst (stream_mp4 env stat param0 rh)).
              \<exists>segs. (\<forall>s \<in> set segs. clean_segment s) \<and>
                accessed_path a = CHR ''/'' # join_with (CHR ''/'') (r @ segs) \<and>
                accessed_path a = mp4Dir env @ concat (map ((#) (CHR ''/'')) segs)"
    proof
      fix a assume "a \<in> set (fst (stream_mp4 env stat param0 rh))"
      then have "resolve_video_path env param0 = Inr (accessed_path a)"
        by (rule stream_mp4_accesses)
      then show "\<exists>segs. (\<forall>s \<in> set segs. clean_segment s) \<and>
                accessed_path a = CHR ''/'' # join_with (CHR ''/'') (r @ segs) \<and>
                accessed_path a = mp4Dir env @ concat (map ((#) (CHR ''/'')) segs)"
        by (rule resolve_video_path_clean [OF r rootp])
    qed
    with r rootp show ?thesis by blast
  qed
  have prefix: "\<forall>a \<in> set (fst (stream_mp4 env stat param0 rh)).
      accessed_path a = mp4Dir env \<or> (\<exists>rest. accessed_path a = mp4Dir env @ ''/'' @ rest)"
  proof
    fix a assume "a \<in> set (fst (stream_mp4 env stat param0 rh))"
    then have "resolve_video_path env param0 = Inr (accessed_path a)"
      by (rule stream_mp4_accesses)
    then show "accessed_path a = mp4Dir env \<or> (\<exists>rest. accessed_path a = mp4Dir env @ ''/'' @ rest)"
      by (rule resolve_video_path_inside)
  qed
  show ?thesis using etc st400 no_access prefix below by blast
qed

theorem file_system_access_inside_mp4Dir_witness:
  "fst (stream_mp4 example_env example_stat ''music/clip.mp4'' None) =
     [Stat ''/srv/app/mp4/music/clip.mp4'', CreateReadStream ''/srv/app/mp4/music/clip.mp4'' None] \<and>
   mp4Dir example_env = ''/srv/app/mp4'' \<and>
   (\<exists>r. r \<noteq> [] \<and> (\<forall>s \<in> set r. clean_segment s) \<and>
        ''/srv/app/mp4'' = CHR ''/'' # join_with (CHR ''/'') r \<and>
        (\<exists>segs. (\<forall>s \<in> set segs. clean_segment s) \<and>
           ''/srv/app/mp4/music/clip.mp4'' = CHR ''/'' # join_with (CHR ''/'') (r @ segs) \<and>
           ''/srv/app/mp4/music/clip.mp4'' = ''/srv/app/mp4'' @ concat (map ((#) (CHR ''/'')) segs))) \<and>
   stream_mp4 example_env example_stat ''../../etc/passwd'' None = ([], invalid_video_path) \<and>
   status invalid_video_path = 400"
proof -
  have reads: "fst (stream_mp4 example_env example_stat ''music/clip.mp4'' None) =
     [Stat ''/srv/app/mp4/music/clip.mp4'', CreateReadStream ''/srv/app/mp4/music/clip.mp4'' None]"
    by (simp add: stream_mp4_def clip_mp4_path example_stat_def serve_file_def whole_file_def)
  have rootp: "mp4Dir example_env = ''/srv/app/mp4''"
    by (simp add: path_eval)
  have abs: "dirname example_env \<noteq> [] \<and> hd (dirname example_env) = CHR ''/''"
    by (simp add: example_env_def)
  note inst = file_system_access_inside_mp4Dir [of example_env example_stat "''music/clip.mp4''" None]
  from inst abs obtain r where r: "r \<noteq> []" "\<forall>s \<in> set r. clean_segment s"
      "mp4Dir example_env = CHR ''/'' # join_with (CHR ''/'') r"
      "\<forall>a \<in> set (fst (stream_mp4 example_env example_stat ''music/clip.mp4'' None)).
              \<exists>segs. (\<forall>s \<in> set segs. clean_segment s) \<and>
                accessed_path a = CHR ''/'' # join_with (CHR ''/'') (r @ segs) \<and>
                accessed_path a = mp4Dir example_env @ concat (map ((#) (CHR ''/'')) segs)"
    by blast
  from r(4) have "\<exists>segs. (\<forall>s \<in> set segs. clean_segment s) \<and>
           ''/srv/app/mp4/music/clip.mp4'' = CHR ''/'' # join_with (CHR ''/'') (r @ segs) \<and>
           ''/srv/app/mp4/music/clip.mp4'' = ''/srv/app/mp4'' @ concat (map ((#) (CHR ''/'')) segs)"
    unfolding reads rootp by simp
  with r(1,2) r(3) [unfolded rootp]
  have "\<exists>r. r \<noteq> [] \<and> (\<forall>s \<in> set r. clean_segment s) \<and>
        ''/srv/app/mp4'' = CHR ''/'' # join_with (CHR ''/'') r \<and>
        (\<exists>segs. (\<forall>s \<in> set segs. clean_segment s) \<and>
           ''/srv/app/mp4/music/clip.mp4'' = CHR ''/'' # join_with (CHR ''/'') (r @ segs) \<and>
           ''/srv/app/mp4/music/clip.mp4'' = ''/srv/app/mp4'' @ concat (map ((#) (CHR ''/'')) segs))"
    by blast
  then show ?thesis using reads rootp inst by simp
qed

text \<open>
  Claim C10. Let the requested path, trimmed, begin with \<^verbatim>\<open>/\<close> or a backslash, and let
  its normal form with the leading separators removed contain no \<^verbatim>\<open>..\<close>. Then that
  remainder does not begin with a separator, it is resolved relative to the asset root
  (the inspected path is the root followed by the kept segments of the remainder), the
  request is never answered 400, and it is answered 404 when no file is found there.
  The directory of \<^verbatim>\<open>index.js\<close> is an absolute path, as Node.js provides it.
\<close>

theorem leading_separators_resolved_inside_mp4Dir:
  assumes "dirname env \<noteq> []" and "hd (dirname env) = CHR ''/''"
    and "requestedPath = trim param0" and "requestedPath \<noteq> []"
    and "is_leading_separator (hd requestedPath)"
    and "normalizedPath = dropWhile is_leading_separator (path_normalize requestedPath)"
    and "\<not> includes_str normalizedPath ''..''"
    and "absolutePath = path_resolve (cwd env) [mp4Dir env, normalizedPath]"
  shows "(normalizedPath = [] \<or> \<not> is_leading_separator (hd normalizedPath)) \<and>
         absolutePath =
           mp4Dir env @ concat (map ((#) (CHR ''/''))
                                  (filter kept_segment (split_on (CHR ''/'') normalizedPath))) \<and>
         resolve_video_path env param0 = Inr absolutePath \<and>
         status (snd (stream_mp4 env stat param0 rh)) \<noteq> 400 \<and>
         (stat absolutePath = None \<longrightarrow>
            stream_mp4 env stat param0 rh = ([Stat absolutePath], sendStatus 404))"
proof -
  obtain r where r: "r \<noteq> []" "\<forall>s \<in> set r. clean_segment s"
    and rootp: "mp4Dir env = CHR ''/'' # join_with (CHR ''/'') r"
    using mp4Dir_shape [OF assms(1,2)] by blast
  have stripped: "normalizedPath = [] \<or> \<not> is_leading_separator (hd normalizedPath)"
    unfolding assms(6) using hd_dropWhile [of is_leading_separator] by blast
  then have np: "normalizedPath = [] \<or> hd normalizedPath \<noteq> CHR ''/''"
    by (auto simp: is_leading_separator_def)
  define f where "f = filter kept_segment (split_on (CHR ''/'') normalizedPath)"
  have "absolutePath = CHR ''/'' # join_with (CHR ''/'') (r @ f)"
    unfolding assms(8) f_def by (rule resolve_under_root [OF r rootp np assms(7)])
  then have ap: "absolutePath = mp4Dir env @ concat (map ((#) (CHR ''/'')) f)"
    using join_under_root [OF r(1)] rootp by simp
  have inside: "absolutePath = mp4Dir env \<or> startsWith absolutePath (mp4Dir env @ ''/'')"
  proof (cases f)
    case Nil
    then show ?thesis using ap by simp
  next
    case (Cons x xs)
    then show ?thesis using ap by (simp add: startsWith_iff)
  qed
  have rv: "resolve_video_path env param0 = Inr absolutePath"
    using assms(3,4,6,7,8) inside by (simp add: resolve_video_path_def Let_def)
  have "status (snd (stream_mp4 env stat param0 rh)) \<noteq> 400"
  proof (cases "stat absolutePath")
    case None
    then show ?thesis using rv by (simp add: stream_mp4_def sendStatus_def)
  next
    case (Some st)
    then show ?thesis using rv serve_file_status [of absolutePath st rh]
      by (cases "serve_file absolutePath st rh") (auto simp: stream_mp4_def sendStatus_def)
  qed
  moreover have "stat absolutePath = None \<longrightarrow>
            stream_mp4 env stat param0 rh = ([Stat absolutePath], sendStatus 404)"
    using rv by (simp add: stream_mp4_def)
  ultimately show ?thesis using stripped ap rv f_def by simp
qed

theorem leading_separators_resolved_inside_mp4Dir_witness:
  "resolve_video_path example_env ''/etc/passwd'' = Inr ''/srv/app/mp4/etc/passwd'' \<and>
   status (snd (stream_mp4 example_env example_stat ''/etc/passwd'' None)) \<noteq> 400 \<and>
   stream_mp4 example_env example_stat ''/etc/passwd'' None =
     ([Stat ''/srv/app/mp4/etc/passwd''], sendStatus 404)"
proof -
  have 1: "dirname example_env \<noteq> []" and 2: "hd (dirname example_env) = CHR ''/''"
    by (simp_all add: example_env_def)
  have 3: "''/etc/passwd'' = trim ''/etc/passwd''"
    by (simp add: trim_def is_white_space_def)
  have 4: "''/etc/passwd'' \<noteq> []" and 5: "is_leading_separator (hd ''/etc/passwd'')"
    by (simp_all add: is_leading_separator_def)
  have 6: "''etc/passwd'' = dropWhile is_leading_separator (path_normalize ''/etc/passwd'')"
    by (simp add: path_normalize_def normalizeString_def normalize_step_def
        is_leading_separator_def)
  have 7: "\<not> includes_str ''etc/passwd'' ''..''"
    by simp
  have 8: "''/srv/app/mp4/etc/passwd'' =
             path_resolve (cwd example_env) [mp4Dir example_env, ''etc/passwd'']"
    by (simp add: mp4Dir_def path_resolve_def normalizeString_def normalize_step_def
        example_env_def)
  have 9: "example_stat ''/srv/app/mp4/etc/passwd'' = None"
    by (simp add: example_stat_def)
  show ?thesis
    using leading_separators_resolved_inside_mp4Dir [OF 1 2 3 4 5 6 7 8, of example_stat None] 9
    by (simp add: sendStatus_def)
qed

section \<open>Properties of the message handler\<close>

lemma typed_message_not_nullish: "get message ''type'' = JStr t \<Longrightarrow> \<not> is_nullish message"
  by (cases message) (auto simp: is_nullish_def)

lemma broadcast_all: "broadcast cs m None = map (\<lambda>c. (ws c, m)) (filter is_open cs)"
  by (simp add: broadcast_def)

lemma broadcast_others:
  "broadcast cs m (Some sender) = map (\<lambda>c. (ws c, m)) (filter (\<lambda>c. ws c \<noteq> sender \<and> is_open c) cs)"
proof -
  have "filter (\<lambda>c. Some sender \<noteq> Some (ws c) \<and> is_open c) cs =
        filter (\<lambda>c. ws c \<noteq> sender \<and> is_open c) cs"
    by (rule filter_cong) auto
  then show ?thesis unfolding broadcast_def by (rule arg_cong)
qed

text \<open>
  Claim C7. A message of type \<^verbatim>\<open>start-visualization\<close>, \<^verbatim>\<open>stop-visualization\<close>,
  \<^verbatim>\<open>regenerate-shader\<close>, \<^verbatim>\<open>set-audio-sensitivity\<close> or \<^verbatim>\<open>code-progress\<close> is sent, as it was
  parsed, to every open connection other than the sender, and the server (the session
  state with all its fields, and the registry of connections) is left as it was.
\<close>

theorem pass_through_relay:
  assumes "get message ''type'' = JStr t"
    and "t \<in> {''start-visualization'', ''stop-visualization'', ''regenerate-shader'',
               ''set-audio-sensitivity'', ''code-progress''}"
  shows "on_message rt s sender message =
           Inr (s, map (\<lambda>c. (ws c, message)) (filter (\<lambda>c. ws c \<noteq> sender \<and> is_open c) (clients s)))"
  using assms typed_message_not_nullish [OF assms(1)]
  by (auto simp: on_message_def broadcast_others)

theorem pass_through_relay_witness:
  "on_message example_runtime example_server 1 stop_message =
     Inr (example_server, [(2, stop_message)])"
proof -
  have "get stop_message ''type'' = JStr ''stop-visualization''"
    by (simp add: stop_message_def obj_get_def)
  from pass_through_relay [OF this, of example_runtime example_server 1]
  show ?thesis by (simp add: example_server_def)
qed






lemma clamp_unit_range:
  "n \<noteq> NaN \<Longrightarrow> js_le (Fin 0) (Math_min (Fin 1) (Math_max (Fin 0) n)) \<and>
                 js_le (Math_min (Fin 1) (Math_max (Fin 0) n)) (Fin 1)"
  by (cases n) auto

lemma clamp_unit_id:
  "js_le (Fin 0) n \<Longrightarrow> js_le n (Fin 1) \<Longrightarrow> Math_min (Fin 1) (Math_max (Fin 0) n) = n"
  by (cases n) auto

lemma clamp_unit_Fin: "Math_min (Fin 1) (Math_max (Fin 0) (Fin x)) = Fin (min 1 (max 0 x))"
  by auto









lemmas message_eval = obj_get_def is_nullish_def nullish_or_def or_else_def opt_get_def
  trim_def is_white_space_def toLowerCase_def toLowerCase_char_def crossfaderFieldMap_def




lemma obj_get_update:
  "obj_get (AList.update k v al) k' = (if k' = k then v else obj_get al k')"
  by (simp add: obj_get_def update_conv')

lemma merge_deck_invariants:
  assumes "merge_deck rt deck data = Inr d"
  shows "obj_get d ''type'' \<in> {JNull, JStr ''shader'', JStr ''video'', JStr ''generative''}"
    and "obj_get d ''type'' = JStr ''generative'' \<Longrightarrow> obj_get d ''assetId'' = JNull"
    and "obj_get d ''type'' \<noteq> JStr ''generative'' \<Longrightarrow>
           obj_get d ''assetId'' = JNull \<or> obj_get d ''type'' = JNull \<Longrightarrow>
           obj_get d ''assetId'' = JNull \<and> obj_get d ''type'' = JNull"
    and "obj_get d ''type'' \<in> {JStr ''shader'', JStr ''video''} \<Longrightarrow> truthy (obj_get d ''assetId'')"
    and "\<exists>n. obj_get d ''opacity'' = JNum n \<and> (n \<noteq> NaN \<longrightarrow> js_le (Fin 0) n \<and> js_le n (Fin 1))"
    and "\<exists>b. obj_get d ''enabled'' = JBool b"
proof -
  define current where "current = AList.merge deck (own_properties data)"
  define current1 where "current1 =
            (if obj_get current ''type'' \<notin> set [JStr ''shader'', JStr ''video'', JStr ''generative'']
             then AList.update ''type'' JNull current else current)"
  define current2 where "current2 =
            (if obj_get current1 ''type'' = JStr ''generative''
             then AList.update ''assetId'' JNull current1
             else if \<not> truthy (obj_get current1 ''assetId'') \<or> \<not> truthy (obj_get current1 ''type'')
             then AList.update ''assetId'' JNull (AList.update ''type'' JNull current1)
             else current1)"
  have md: "merge_deck rt deck data =
        (case ToNumber rt (nullish_or (obj_get current2 ''opacity'') (JNum (Fin 1))) of
           Inl e \<Rightarrow> Inl e
         | Inr n \<Rightarrow>
             Inr (AList.update ''enabled''
                    (JBool (truthy (obj_get (AList.update ''opacity''
                       (JNum (Math_min (Fin 1) (Math_max (Fin 0) n))) current2) ''enabled'')))
                    (AList.update ''opacity'' (JNum (Math_min (Fin 1) (Math_max (Fin 0) n))) current2)))"
    by (simp only: merge_deck_def Let_def current2_def current1_def current_def)
  obtain n where d: "d = AList.update ''enabled''
        (JBool (truthy (obj_get (AList.update ''opacity''
            (JNum (Math_min (Fin 1) (Math_max (Fin 0) n))) current2) ''enabled'')))
        (AList.update ''opacity'' (JNum (Math_min (Fin 1) (Math_max (Fin 0) n))) current2)"
    using assms unfolding md by (auto split: sum.splits)
  have ty: "obj_get d ''type'' = obj_get current2 ''type''"
    and asset: "obj_get d ''assetId'' = obj_get current2 ''assetId''"
    and op: "obj_get d ''opacity'' = JNum (Math_min (Fin 1) (Math_max (Fin 0) n))"
    by (simp_all add: d obj_get_update)
  have t1: "obj_get current1 ''type'' \<in> {JNull, JStr ''shader'', JStr ''video'', JStr ''generative''}"
    by (auto simp: current1_def obj_get_update)
  show "obj_get d ''type'' \<in> {JNull, JStr ''shader'', JStr ''video'', JStr ''generative''}"
    using t1 by (auto simp: ty current2_def obj_get_update)
  show "obj_get d ''type'' = JStr ''generative'' \<Longrightarrow> obj_get d ''assetId'' = JNull"
    by (auto simp: ty asset current2_def obj_get_update split: if_splits)
  show "obj_get d ''type'' \<noteq> JStr ''generative'' \<Longrightarrow>
           obj_get d ''assetId'' = JNull \<or> obj_get d ''type'' = JNull \<Longrightarrow>
           obj_get d ''assetId'' = JNull \<and> obj_get d ''type'' = JNull"
    by (auto simp: ty asset current2_def obj_get_update split: if_splits)
  show "obj_get d ''type'' \<in> {JStr ''shader'', JStr ''video''} \<Longrightarrow> truthy (obj_get d ''assetId'')"
    by (auto simp: ty asset current2_def obj_get_update split: if_splits)
  show "\<exists>n. obj_get d ''opacity'' = JNum n \<and> (n \<noteq> NaN \<longrightarrow> js_le (Fin 0) n \<and> js_le n (Fin 1))"
  proof (cases "n = NaN")
    case True
    then show ?thesis by (simp add: op)
  next
    case False
    then have "Math_min (Fin 1) (Math_max (Fin 0) n) \<noteq> NaN" by (cases n) auto
    then show ?thesis using clamp_unit_range [OF False] by (simp add: op)
  qed
  show "\<exists>b. obj_get d ''enabled'' = JBool b"
    by (simp add: d obj_get_update)
qed

subsection \<open>Deck updates\<close>

lemma lookup_deck_cases:
  "k \<in> {''a'', ''b'', ''c'', ''d''} \<Longrightarrow> \<exists>dk. lookup_deck k = Own dk"
  by (auto simp: lookup_deck_def)

lemma update_mix_deck_applied:
  assumes "truthy deck" and "deck = opt_get (get message ''payload'') ''deck''"
    and "ToPropertyKey rt deck = Inr k" and "lookup_deck k = Own dk"
    and "update_mix_deck rt s message = Inr (s', frames)"
  shows "\<exists>current.
           merge_deck rt (decks (mixState (state s)) dk)
             (or_else (opt_get (get message ''payload'') ''data'') (JObj [])) = Inr current \<and>
           s' = s\<lparr>state := (state s)\<lparr>mixState :=
                  (mixState (state s))\<lparr>decks := (decks (mixState (state s)))(dk := current)\<rparr>\<rparr>\<rparr> \<and>
           frames = map (\<lambda>c. (ws c, mix_state_message (mixState (state s')))) (filter is_open (clients s))"
  using assms
  by (auto simp: update_mix_deck_def Let_def broadcastMixState_def broadcast_all split: sum.splits)

lemma mix_deck_dispatch:
  assumes "get message ''type'' = JStr ''update-mix-deck''"
  shows "on_message rt s sender message = update_mix_deck rt s message"
  using assms typed_message_not_nullish [OF assms] by (simp add: on_message_def)

text \<open>
  Claim C1, amended. For every message of type \<^verbatim>\<open>update-mix-deck\<close> whose deck key is one
  of \<^verbatim>\<open>a\<close>, \<^verbatim>\<open>b\<close>, \<^verbatim>\<open>c\<close>, \<^verbatim>\<open>d\<close> and whose handling completes, the deck afterwards
  satisfies: the type is \<^verbatim>\<open>null\<close>, \<^verbatim>\<open>shader\<close>, \<^verbatim>\<open>video\<close> or \<^verbatim>\<open>generative\<close>; a generative
  deck has no asset; for a deck that is not generative, if the asset or the type is
  \<^verbatim>\<open>null\<close> then both are; the opacity is a number, which lies between 0 and 1 whenever
  it is not \<^verbatim>\<open>NaN\<close>; and \<^verbatim>\<open>enabled\<close> is a boolean.
\<close>

theorem deck_invariants_after_update:
  assumes "get message ''type'' = JStr ''update-mix-deck''"
    and "opt_get (get message ''payload'') ''deck'' = JStr k"
    and "k \<in> {''a'', ''b'', ''c'', ''d''}"
    and "on_message rt s sender message = Inr (s', frames)"
  shows "\<exists>dk. lookup_deck k = Own dk \<and>
           (let d = decks (mixState (state s')) dk;
                ty = obj_get d ''type'';
                asset = obj_get d ''assetId'' in
            ty \<in> {JNull, JStr ''shader'', JStr ''video'', JStr ''generative''} \<and>
            (ty = JStr ''generative'' \<longrightarrow> asset = JNull) \<and>
            (ty \<noteq> JStr ''generative'' \<longrightarrow> asset = JNull \<or> ty = JNull \<longrightarrow> asset = JNull \<and> ty = JNull) \<and>
            (\<exists>n. obj_get d ''opacity'' = JNum n \<and> (n \<noteq> NaN \<longrightarrow> js_le (Fin 0) n \<and> js_le n (Fin 1))) \<and>
            (\<exists>b. obj_get d ''enabled'' = JBool b))"
proof -
  obtain dk where dk: "lookup_deck k = Own dk"
    using lookup_deck_cases [OF assms(3)] by blast
  have "k \<noteq> []" using assms(3) by auto
  then have tr: "truthy (JStr k)" by simp
  have key: "ToPropertyKey rt (JStr k) = Inr k" by (simp add: ToPropertyKey_def)
  have "update_mix_deck rt s message = Inr (s', frames)"
    using assms(4) mix_deck_dispatch [OF assms(1), of rt s sender] by simp
  from update_mix_deck_applied [OF tr assms(2) [symmetric] key dk this]
  obtain current where all: "merge_deck rt (decks (mixState (state s)) dk)
             (or_else (opt_get (get message ''payload'') ''data'') (JObj [])) = Inr current \<and>
           s' = s\<lparr>state := (state s)\<lparr>mixState :=
                  (mixState (state s))\<lparr>decks := (decks (mixState (state s)))(dk := current)\<rparr>\<rparr>\<rparr> \<and>
           frames = map (\<lambda>c. (ws c, mix_state_message (mixState (state s')))) (filter is_open (clients s))"
    ..
  from all have cur: "merge_deck rt (decks (mixState (state s)) dk)
             (or_else (opt_get (get message ''payload'') ''data'') (JObj [])) = Inr current"
    by (rule conjunct1)
  from all have s': "s' = s\<lparr>state := (state s)\<lparr>mixState :=
                  (mixState (state s))\<lparr>decks := (decks (mixState (state s)))(dk := current)\<rparr>\<rparr>\<rparr>"
    by (rule conjunct1 [OF conjunct2])
  have d: "decks (mixState (state s')) dk = current" by (simp add: s')
  note inv = merge_deck_invariants [OF cur]
  have main: "lookup_deck k = Own dk \<and>
           (let d = decks (mixState (state s')) dk;
                ty = obj_get d ''type'';
                asset = obj_get d ''assetId'' in
            ty \<in> {JNull, JStr ''shader'', JStr ''video'', JStr ''generative''} \<and>
            (ty = JStr ''generative'' \<longrightarrow> asset = JNull) \<and>
            (ty \<noteq> JStr ''generative'' \<longrightarrow> asset = JNull \<or> ty = JNull \<longrightarrow> asset = JNull \<and> ty = JNull) \<and>
            (\<exists>n. obj_get d ''opacity'' = JNum n \<and> (n \<noteq> NaN \<longrightarrow> js_le (Fin 0) n \<and> js_le n (Fin 1))) \<and>
            (\<exists>b. obj_get d ''enabled'' = JBool b))"
    unfolding Let_def d
  proof (intro conjI impI)
    show "lookup_deck k = Own dk" by (rule dk)
    show "obj_get current ''type'' \<in> {JNull, JStr ''shader'', JStr ''video'', JStr ''generative''}"
      by (rule inv(1))
    show "obj_get current ''assetId'' = JNull" if "obj_get current ''type'' = JStr ''generative''"
      using that by (rule inv(2))
    show "obj_get current ''assetId'' = JNull"
      if "obj_get current ''type'' \<noteq> JStr ''generative''"
        and "obj_get current ''assetId'' = JNull \<or> obj_get current ''type'' = JNull"
      using inv(3) [OF that] by simp
    show "obj_get current ''type'' = JNull"
      if "obj_get current ''type'' \<noteq> JStr ''generative''"
        and "obj_get current ''assetId'' = JNull \<or> obj_get current ''type'' = JNull"
      using inv(3) [OF that] by simp
    show "\<exists>n. obj_get current ''opacity'' = JNum n \<and>
               (n \<noteq> NaN \<longrightarrow> js_le (Fin 0) n \<and> js_le n (Fin 1))"
      by (rule inv(5))
    show "\<exists>b. obj_get current ''enabled'' = JBool b" by (rule inv(6))
  qed
  show ?thesis by (rule exI [of _ dk]) (rule main)
qed

lemma video_deck_run:
  "on_message example_runtime example_server 1 video_deck_message =
     Inr (example_server\<lparr>state := (state example_server)\<lparr>mixState :=
            (mixState (state example_server))\<lparr>decks := (decks (mixState (state example_server)))
              (Deck_a := [(''type'', JStr ''video''), (''assetId'', JStr ''cat/clip.mp4''),
                          (''opacity'', JNum (Fin 1)), (''enabled'', JBool True)])\<rparr>\<rparr>\<rparr>,
          broadcastMixState (example_server\<lparr>state := (state example_server)\<lparr>mixState :=
            (mixState (state example_server))\<lparr>decks := (decks (mixState (state example_server)))
              (Deck_a := [(''type'', JStr ''video''), (''assetId'', JStr ''cat/clip.mp4''),
                          (''opacity'', JNum (Fin 1)), (''enabled'', JBool True)])\<rparr>\<rparr>\<rparr>))"
  by (simp add: on_message_def update_mix_deck_def video_deck_message_def message_eval
      ToPropertyKey_def lookup_deck_def merge_deck_def AList.merge_def Let_def
      example_server_def initial_state_def defaultMixDeck_def)

theorem deck_invariants_after_update_witness:
  "\<exists>s' frames. on_message example_runtime example_server 1 video_deck_message = Inr (s', frames) \<and>
     decks (mixState (state s')) Deck_a =
       [(''type'', JStr ''video''), (''assetId'', JStr ''cat/clip.mp4''),
        (''opacity'', JNum (Fin 1)), (''enabled'', JBool True)] \<and>
     obj_get (decks (mixState (state s')) Deck_a) ''type'' \<in>
       {JNull, JStr ''shader'', JStr ''video'', JStr ''generative''} \<and>
     (\<exists>n. obj_get (decks (mixState (state s')) Deck_a) ''opacity'' = JNum n \<and> js_le (Fin 0) n \<and> js_le n (Fin 1))"
proof -
  have 1: "get video_deck_message ''type'' = JStr ''update-mix-deck''"
    and 2: "opt_get (get video_deck_message ''payload'') ''deck'' = JStr ''a''"
    by (simp_all add: video_deck_message_def message_eval)
  have 3: "''a'' \<in> {''a'', ''b'', ''c'', ''d''}" by simp
  have 4: "lookup_deck ''a'' = Own Deck_a" by (simp add: lookup_deck_def)
  show ?thesis
    using deck_invariants_after_update [OF 1 2 3 video_deck_run] 4 video_deck_run
    by (auto simp: Let_def obj_get_def)
qed

text \<open>
  Claim C1 says that after every deck update, an asset or a type that is \<^verbatim>\<open>null\<close> implies
  that both are. The handler clears the asset of a generative deck and keeps its type:
  after the update \<^verbatim>\<open>{deck: "a", data: {type: "generative"}}\<close> the deck has the type
  \<^verbatim>\<open>generative\<close> and the asset \<^verbatim>\<open>null\<close>.
\<close>

theorem generative_deck_counterexample:
  "(case on_message example_runtime example_server 1 generative_deck_message of
      Inl e \<Rightarrow> []
    | Inr (s', frames) \<Rightarrow> decks (mixState (state s')) Deck_a) =
     [(''type'', JStr ''generative''), (''assetId'', JNull),
      (''opacity'', JNum (Fin 1)), (''enabled'', JBool False)]"
  by (simp add: on_message_def update_mix_deck_def generative_deck_message_def message_eval
      ToPropertyKey_def lookup_deck_def merge_deck_def AList.merge_def Let_def
      example_server_def initial_state_def defaultMixDeck_def)

subsection \<open>Who receives an update\<close>












end
